theory Spec2Isabelle
  imports Main
begin

section \<open>Unraid disk temperature collectors\<close>

text \<open>
  The repository holds two revisions of one bash collector that reads Unraid's
  \<^verbatim>\<open>disks.ini\<close> and sends one DogStatsD gauge per disk over UDP:
  \<^item> the slot schema, \<^verbatim>\<open>datadog/unraid_disk_temp_monitoring.sh\<close>, whose names carry the
    suffix \<open>_v1\<close> here (variables slot, id, temp, type);
  \<^item> the multi-field schema (the second bash script of the repository), suffix \<open>_v2\<close>
    (variables name, id, temp, type, device, transport, rotational).

  Strings are byte lists. The character classes are those of the C locale, where
  \<^verbatim>\<open>[:upper:]\<close> is A-Z, \<^verbatim>\<open>[:space:]\<close> is space, tab, newline, vertical tab, form feed
  and carriage return, and \<^verbatim>\<open>[0-9]\<close> is the ten ASCII digits. Every string a script
  variable holds is cut from one line of the file, so it contains no newline; the
  text utilities below are modelled on such one-line strings.
\<close>

subsection \<open>Configuration\<close>

definition METRIC_PREFIX :: string where
  "METRIC_PREFIX = ''unraid.disk''"

definition LOG_ENABLED :: bool where
  "LOG_ENABLED = True"

definition DISKS_INI :: string where
  "DISKS_INI = ''/var/local/emhttp/disks.ini''"

subsection \<open>The shell utilities the scripts call\<close>

text \<open>
  The builtin \<^verbatim>\<open>echo\<close> takes a first operand that is a hyphen followed by one or more
  of the letters n, e, E as an option, and then prints no text. \<open>echo s\<close> is the line
  \<^verbatim>\<open>echo "$s"\<close> hands to the next command of a pipeline, without its newline.
\<close>

definition is_echo_option :: "string \<Rightarrow> bool" where
  "is_echo_option s =
     (case s of
        [] \<Rightarrow> False
      | c # cs \<Rightarrow> c = CHR ''-'' \<and> cs \<noteq> [] \<and>
          list_all (\<lambda>x. x = CHR ''n'' \<or> x = CHR ''e'' \<or> x = CHR ''E'') cs)"

definition echo :: "string \<Rightarrow> string" where
  "echo s = (if is_echo_option s then [] else s)"

definition is_space :: "char \<Rightarrow> bool" where
  "is_space c =
     (c = CHR '' '' \<or> c = CHR 0x09 \<or> c = CHR 0x0A \<or> c = CHR 0x0B \<or> c = CHR 0x0C \<or> c = CHR 0x0D)"

text \<open>
  \<^verbatim>\<open>sed -e 's/^[[:space:]]*//' -e 's/[[:space:]]*$//'\<close>: the first expression takes the
  white space off the front of the line, the second off its end.
\<close>

definition strip_leading :: "string \<Rightarrow> string" where
  "strip_leading s = dropWhile is_space s"

definition strip_trailing :: "string \<Rightarrow> string" where
  "strip_trailing s = rev (dropWhile is_space (rev s))"

definition sed_trim :: "string \<Rightarrow> string" where
  "sed_trim s = strip_trailing (strip_leading s)"

definition is_upper :: "char \<Rightarrow> bool" where
  "is_upper c = (65 \<le> (of_char c :: nat) \<and> (of_char c :: nat) \<le> 90)"

definition to_lower :: "char \<Rightarrow> char" where
  "to_lower c = (if is_upper c then char_of (of_char c + (32 :: nat)) else c)"

text \<open>\<^verbatim>\<open>tr '[:upper:]' '[:lower:]'\<close>\<close>

definition tr_lower :: "string \<Rightarrow> string" where
  "tr_lower s = map to_lower s"

text \<open>\<^verbatim>\<open>tr -d cs\<close> deletes every occurrence of every character of \<open>cs\<close>.\<close>

definition tr_d :: "string \<Rightarrow> string \<Rightarrow> string" where
  "tr_d cs s = filter (\<lambda>c. c \<notin> set cs) s"

text \<open>
  \<^verbatim>\<open>cut -d'='\<close> prints a line that has no delimiter whole, whatever fields are
  selected: \<^verbatim>\<open>-f1\<close> is the text before the first delimiter, \<^verbatim>\<open>-f2\<close> the text between
  the first and the second, \<^verbatim>\<open>-f2-\<close> all the text after the first.
\<close>

definition cut_f1 :: "string \<Rightarrow> string" where
  "cut_f1 s = takeWhile (\<lambda>c. c \<noteq> CHR ''='') s"

definition cut_f2_to_end :: "string \<Rightarrow> string" where
  "cut_f2_to_end s =
     (if CHR ''='' \<in> set s then drop 1 (dropWhile (\<lambda>c. c \<noteq> CHR ''='') s) else s)"

definition cut_f2 :: "string \<Rightarrow> string" where
  "cut_f2 s =
     (if CHR ''='' \<in> set s then takeWhile (\<lambda>c. c \<noteq> CHR ''='') (cut_f2_to_end s) else s)"

text \<open>The section header test \<^verbatim>\<open>[[ "$clean_line" =~ ^\[\".+\"\]$ ]]\<close>.\<close>

definition is_header :: "string \<Rightarrow> bool" where
  \<open>is_header s = (5 \<le> length s \<and> take 2 s = ''["'' \<and> drop (length s - 2) s = ''"]'')\<close>

definition is_digit :: "char \<Rightarrow> bool" where
  "is_digit c = (48 \<le> (of_char c :: nat) \<and> (of_char c :: nat) \<le> 57)"

text \<open>The temperature test \<^verbatim>\<open>[[ "$current_temp" =~ ^[0-9]+$ ]]\<close>.\<close>

definition is_numeric :: "string \<Rightarrow> bool" where
  "is_numeric s = (s \<noteq> [] \<and> list_all is_digit s)"

text \<open>The decimal text of a shell integer, as \<^verbatim>\<open>${disk_count}\<close> expands.\<close>

fun decimal :: "nat \<Rightarrow> string" where
  "decimal n =
     (if n < 10 then [char_of (48 + n)]
      else decimal (n div 10) @ [char_of (48 + n mod 10)])"

declare decimal.simps [simp del]

text \<open>
  \<^verbatim>\<open>while IFS= read -r line; do ... done < "$DISKS_INI"\<close> runs its body once for each
  line that \<^verbatim>\<open>read\<close> returns with status 0: \<^verbatim>\<open>read\<close> gathers bytes up to a newline,
  skips NUL bytes, and returns non-zero at end of file, so that bytes after the last
  newline never reach the body. \<open>read_from line rest\<close> has \<open>line\<close> gathered so far.
\<close>

fun read_from :: "string \<Rightarrow> string \<Rightarrow> string list" where
  "read_from line [] = []"
| "read_from line (c # cs) =
     (if c = CHR 0x0A then line # read_from [] cs
      else if c = CHR 0x00 then read_from line cs
      else read_from (line @ [c]) cs)"

definition read_lines :: "string \<Rightarrow> string list" where
  "read_lines content = read_from [] content"

subsection \<open>What a run does to the outside\<close>

text \<open>
  \<open>sent\<close> lists the payloads written to \<^verbatim>\<open>/dev/udp/$DATADOG_HOST/$DATADOG_PORT\<close>, one
  datagram each, oldest first; \<open>console\<close> lists the messages given to \<^verbatim>\<open>log\<close> while
  logging is enabled, without the time stamp that \<^verbatim>\<open>date\<close> puts before each.
\<close>

record out_state =
  disk_count :: nat
  sent :: "string list"
  console :: "string list"

text \<open>A value between single quotes, as the log messages show it.\<close>

definition quoted :: "string \<Rightarrow> string" where
  "quoted s = [CHR 0x27] @ s @ [CHR 0x27]"

definition log :: "string \<Rightarrow> out_state \<Rightarrow> out_state" where
  "log msg out = (if LOG_ENABLED then out\<lparr>console := console out @ [msg]\<rparr> else out)"

text \<open>\<^verbatim>\<open>echo -n "$metric" >/dev/udp/...\<close>: the payload goes out with no newline after it.\<close>

definition udp_send :: "string \<Rightarrow> out_state \<Rightarrow> out_state" where
  "udp_send metric out = out\<lparr>sent := sent out @ [metric]\<rparr>"

subsection \<open>The variables of the current section\<close>

record disk_vars =
  current_id :: string
  current_temp :: string
  current_type :: string

record v1_vars = disk_vars +
  current_slot :: string

record v2_vars = disk_vars +
  current_name :: string
  current_device :: string
  current_transport :: string
  current_rotational :: string

text \<open>\<^verbatim>\<open>type_tag=$(echo "$current_type" | tr '[:upper:]' '[:lower:]')\<close>, in both scripts.\<close>

definition type_tag :: "'a disk_vars_scheme \<Rightarrow> string" where
  "type_tag v = tr_lower (echo (current_type v))"

subsection \<open>The multi-field script\<close>

text \<open>\<^verbatim>\<open>sanitized_id=$(echo "$current_id" | tr '[:upper:]' '[:lower:]')\<close>\<close>

definition sanitized_id :: "v2_vars \<Rightarrow> string" where
  "sanitized_id v = tr_lower (echo (current_id v))"

definition drive_kind :: "v2_vars \<Rightarrow> string" where
  "drive_kind v =
     (if current_rotational v = ''1'' then ''hdd''
      else if current_rotational v = ''0'' then ''ssd''
      else [])"

text \<open>The five tags every metric carries, then the tag that depends on the drive kind.\<close>

definition base_tags_v2 :: "v2_vars \<Rightarrow> string" where
  "base_tags_v2 v =
     ''disk_name:'' @ current_name v @ '',disk_id:'' @ sanitized_id v @
     '',disk_type:'' @ type_tag v @ '',device:'' @ current_device v @
     '',transport:'' @ current_transport v"

definition tags_v2 :: "v2_vars \<Rightarrow> string" where
  "tags_v2 v =
     (if drive_kind v \<noteq> [] then base_tags_v2 v @ '',drive_kind:'' @ drive_kind v
      else base_tags_v2 v)"

definition metric_v2 :: "v2_vars \<Rightarrow> string" where
  "metric_v2 v = (METRIC_PREFIX @ ''.temperature'') @ '':'' @ current_temp v @ ''|g|#'' @ tags_v2 v"

definition process_metric_v2 :: "v2_vars \<Rightarrow> out_state \<Rightarrow> out_state" where
  "process_metric_v2 v out =
     (if current_name v \<noteq> [] \<and> current_temp v \<noteq> [] then
        if is_numeric (current_temp v) then
          let out1 = log (''Processing: Name='' @ quoted (current_name v) @
                          '', ID='' @ quoted (current_id v) @
                          '', Type='' @ quoted (current_type v) @
                          '', Temp='' @ quoted (current_temp v) @
                          '', Device='' @ quoted (current_device v) @
                          '', Rotational='' @ quoted (current_rotational v)) out;
              out2 = udp_send (metric_v2 v) out1;
              out3 = log (''Sent metric: '' @ metric_v2 v) out2
          in out3\<lparr>disk_count := Suc (disk_count out3)\<rparr>
        else
          log (''Skipping disk '' @ quoted (current_name v) @ '' because temperature ('' @
               quoted (current_temp v) @ '') is not a valid number.'') out
      else out)"

text \<open>
  The seven assignments of the empty string after a section header; the same seven
  stand before the loop, so this is also the state the loop starts from.
\<close>

definition reset_v2 :: v2_vars where
  "reset_v2 =
     \<lparr>current_id = [], current_temp = [], current_type = [], current_name = [],
      current_device = [], current_transport = [], current_rotational = []\<rparr>"

text \<open>The \<^verbatim>\<open>case "$key" in ... esac\<close> statement.\<close>

definition assign_v2 :: "string \<Rightarrow> string \<Rightarrow> v2_vars \<Rightarrow> v2_vars" where
  "assign_v2 key val v =
     (if key = ''name'' then v\<lparr>current_name := val\<rparr>
      else if key = ''id'' then v\<lparr>current_id := val\<rparr>
      else if key = ''temp'' then v\<lparr>current_temp := val\<rparr>
      else if key = ''type'' then v\<lparr>current_type := val\<rparr>
      else if key = ''device'' then v\<lparr>current_device := val\<rparr>
      else if key = ''transport'' then v\<lparr>current_transport := val\<rparr>
      else if key = ''rotational'' then v\<lparr>current_rotational := val\<rparr>
      else v)"

text \<open>The body of the \<^verbatim>\<open>while\<close> loop, for one line.\<close>

definition loop_body_v2 :: "string \<Rightarrow> v2_vars \<times> out_state \<Rightarrow> v2_vars \<times> out_state" where
  \<open>loop_body_v2 line s =
     (case s of (v, out) \<Rightarrow>
        let clean_line = sed_trim (echo line) in
        if is_header clean_line then (reset_v2, process_metric_v2 v out)
        else
          let key = cut_f1 (echo clean_line);
              val = tr_d ''"'' (cut_f2_to_end (echo clean_line))
          in (assign_v2 key val v, out))\<close>

fun main_loop_v2 :: "string list \<Rightarrow> v2_vars \<times> out_state \<Rightarrow> v2_vars \<times> out_state" where
  "main_loop_v2 [] s = s"
| "main_loop_v2 (line # rest) s = main_loop_v2 rest (loop_body_v2 line s)"

text \<open>
  The whole script: \<open>None\<close> is a missing \<^verbatim>\<open>disks.ini\<close>, \<open>Some content\<close> a file with these
  bytes. The result is the exit status and what was sent and logged.
\<close>

definition main_v2 :: "string option \<Rightarrow> nat \<times> out_state" where
  "main_v2 file =
     (let out0 = log ''--- Script execution started. ---''
                   \<lparr>disk_count = 0, sent = [], console = []\<rparr>
      in case file of
           None \<Rightarrow> (1, log (''ERROR: '' @ DISKS_INI @ '' not found. Exiting.'') out0)
         | Some content \<Rightarrow>
             let out1 = log (''Found disk info file, starting parsing: '' @ DISKS_INI) out0;
                 s = main_loop_v2 (read_lines content) (reset_v2, out1);
                 out2 = process_metric_v2 (fst s) (snd s);
                 out3 = log (''Processed and sent metrics for '' @ decimal (disk_count out2)
                             @ '' disks.'') out2
             in (0, log ''--- Script execution finished. ---'' out3))"

subsection \<open>The slot script\<close>

definition tags_v1 :: "v1_vars \<Rightarrow> string" where
  "tags_v1 v =
     ''disk_slot:'' @ current_slot v @ '',disk_id:'' @ current_id v @
     '',disk_type:'' @ type_tag v"

definition metric_v1 :: "v1_vars \<Rightarrow> string" where
  "metric_v1 v = (METRIC_PREFIX @ ''.temperature'') @ '':'' @ current_temp v @ ''|g|#'' @ tags_v1 v"

definition process_metric_v1 :: "v1_vars \<Rightarrow> out_state \<Rightarrow> out_state" where
  "process_metric_v1 v out =
     (if current_slot v \<noteq> [] \<and> current_temp v \<noteq> [] then
        if is_numeric (current_temp v) then
          let out1 = log (''Processing: Slot='' @ quoted (current_slot v) @
                          '', ID='' @ quoted (current_id v) @
                          '', Type='' @ quoted (current_type v) @
                          '', Temp='' @ quoted (current_temp v)) out;
              out2 = udp_send (metric_v1 v) out1;
              out3 = log (''Sent metric: '' @ metric_v1 v) out2
          in out3\<lparr>disk_count := Suc (disk_count out3)\<rparr>
        else
          log (''Skipping disk '' @ quoted (current_slot v) @ '' because temperature ('' @
               quoted (current_temp v) @ '') is not a valid number.'') out
      else out)"

text \<open>The variables before the loop: every one the empty string.\<close>

definition init_v1 :: v1_vars where
  "init_v1 = \<lparr>current_id = [], current_temp = [], current_type = [], current_slot = []\<rparr>"

text \<open>
  After a header the slot is the header line without its brackets and quotes
  (\<^verbatim>\<open>tr -d '[]"'\<close>), and the other three variables are emptied.
\<close>

definition reset_v1 :: "string \<Rightarrow> v1_vars" where
  \<open>reset_v1 clean_line =
     \<lparr>current_id = [], current_temp = [], current_type = [],
      current_slot = tr_d ''[]"'' (echo clean_line)\<rparr>\<close>

definition loop_body_v1 :: "string \<Rightarrow> v1_vars \<times> out_state \<Rightarrow> v1_vars \<times> out_state" where
  \<open>loop_body_v1 line s =
     (case s of (v, out) \<Rightarrow>
        let clean_line = sed_trim (echo line) in
        if is_header clean_line then (reset_v1 clean_line, process_metric_v1 v out)
        else if take 3 clean_line = ''id='' then
          (v\<lparr>current_id := tr_d ''"'' (cut_f2 (echo clean_line))\<rparr>, out)
        else if take 5 clean_line = ''temp='' then
          (v\<lparr>current_temp := tr_d ''"'' (cut_f2 (echo clean_line))\<rparr>, out)
        else if take 5 clean_line = ''type='' then
          (v\<lparr>current_type := tr_d ''"'' (cut_f2 (echo clean_line))\<rparr>, out)
        else (v, out))\<close>

fun main_loop_v1 :: "string list \<Rightarrow> v1_vars \<times> out_state \<Rightarrow> v1_vars \<times> out_state" where
  "main_loop_v1 [] s = s"
| "main_loop_v1 (line # rest) s = main_loop_v1 rest (loop_body_v1 line s)"

definition main_v1 :: "string option \<Rightarrow> nat \<times> out_state" where
  "main_v1 file =
     (let out0 = log ''--- Script execution started. ---''
                   \<lparr>disk_count = 0, sent = [], console = []\<rparr>
      in case file of
           None \<Rightarrow> (1, log (''ERROR: '' @ DISKS_INI @ '' not found. Exiting.'') out0)
         | Some content \<Rightarrow>
             let out1 = log (''Found disk info file, starting parsing: '' @ DISKS_INI) out0;
                 s = main_loop_v1 (read_lines content) (init_v1, out1);
                 out2 = process_metric_v1 (fst s) (snd s);
                 out3 = log (''Processed and sent metrics for '' @ decimal (disk_count out2)
                             @ '' disks.'') out2
             in (0, log ''--- Script execution finished. ---'' out3))"

subsection \<open>The validity test of a section's variables\<close>

text \<open>
  A metric goes out for a section when its identifier and its temperature are not empty
  and the temperature is all digits; the identifier is the name in the multi-field
  script and the slot in the slot script.
\<close>

definition valid_v2 :: "v2_vars \<Rightarrow> bool" where
  "valid_v2 v = (current_name v \<noteq> [] \<and> current_temp v \<noteq> [] \<and> is_numeric (current_temp v))"

definition valid_v1 :: "v1_vars \<Rightarrow> bool" where
  "valid_v1 v = (current_slot v \<noteq> [] \<and> current_temp v \<noteq> [] \<and> is_numeric (current_temp v))"

subsection \<open>Sections of the file\<close>

text \<open>A line that the loop takes as a section header, after its trimming.\<close>

definition is_header_line :: "string \<Rightarrow> bool" where
  "is_header_line line = is_header (sed_trim (echo line))"

definition no_header :: "string list \<Rightarrow> bool" where
  "no_header ls = list_all (\<lambda>l. \<not> is_header_line l) ls"

text \<open>An output state with nothing sent, counted or logged yet.\<close>

definition out_nil :: out_state where
  "out_nil = \<lparr>disk_count = 0, sent = [], console = []\<rparr>"

text \<open>
  A section is its header line and the lines up to the next header. Its variables are
  what the loop has gathered when the section ends.
\<close>

definition section_lines :: "string \<times> string list \<Rightarrow> string list" where
  "section_lines sec = fst sec # snd sec"

definition section_vars_v2 :: "string \<times> string list \<Rightarrow> v2_vars" where
  "section_vars_v2 sec = fst (main_loop_v2 (snd sec) (reset_v2, out_nil))"

definition section_vars_v1 :: "string \<times> string list \<Rightarrow> v1_vars" where
  "section_vars_v1 sec =
     fst (main_loop_v1 (snd sec) (reset_v1 (sed_trim (echo (fst sec))), out_nil))"

text \<open>
  A well-formed section with a valid identifier and an all-digit temperature: a header
  line, no further header among its lines, and variables that pass the validity test.
\<close>

definition good_section_v2 :: "string \<times> string list \<Rightarrow> bool" where
  "good_section_v2 sec =
     (is_header_line (fst sec) \<and> no_header (snd sec) \<and> valid_v2 (section_vars_v2 sec))"

definition good_section_v1 :: "string \<times> string list \<Rightarrow> bool" where
  "good_section_v1 sec =
     (is_header_line (fst sec) \<and> no_header (snd sec) \<and> valid_v1 (section_vars_v1 sec))"

subsection \<open>The records handed to the validity test\<close>

text \<open>
  \<open>flushed ls v\<close> lists, in order, the variables that \<^verbatim>\<open>process_metric\<close> is called on
  when the loop runs over the lines \<open>ls\<close> from the variables \<open>v\<close>: once at each header
  line, and once at end of input. \<open>one_line\<close> says that no variable holds a newline.
\<close>

fun flushed_v2 :: "string list \<Rightarrow> v2_vars \<Rightarrow> v2_vars list" where
  "flushed_v2 [] v = [v]"
| "flushed_v2 (line # rest) v =
     (if is_header_line line then v # flushed_v2 rest reset_v2
      else flushed_v2 rest (fst (loop_body_v2 line (v, out_nil))))"

fun flushed_v1 :: "string list \<Rightarrow> v1_vars \<Rightarrow> v1_vars list" where
  "flushed_v1 [] v = [v]"
| "flushed_v1 (line # rest) v =
     (if is_header_line line then v # flushed_v1 rest (reset_v1 (sed_trim (echo line)))
      else flushed_v1 rest (fst (loop_body_v1 line (v, out_nil))))"

definition one_line_v2 :: "v2_vars \<Rightarrow> bool" where
  "one_line_v2 v =
     (CHR 0x0A \<notin> set (current_name v) \<and> CHR 0x0A \<notin> set (current_id v) \<and>
      CHR 0x0A \<notin> set (current_temp v) \<and> CHR 0x0A \<notin> set (current_type v) \<and>
      CHR 0x0A \<notin> set (current_device v) \<and> CHR 0x0A \<notin> set (current_transport v) \<and>
      CHR 0x0A \<notin> set (current_rotational v))"

definition one_line_v1 :: "v1_vars \<Rightarrow> bool" where
  "one_line_v1 v =
     (CHR 0x0A \<notin> set (current_slot v) \<and> CHR 0x0A \<notin> set (current_id v) \<and>
      CHR 0x0A \<notin> set (current_temp v) \<and> CHR 0x0A \<notin> set (current_type v))"

subsection \<open>The variable a recognized key names\<close>

definition field_v2 :: "string \<Rightarrow> v2_vars \<Rightarrow> string" where
  "field_v2 key v =
     (if key = ''name'' then current_name v
      else if key = ''id'' then current_id v
      else if key = ''temp'' then current_temp v
      else if key = ''type'' then current_type v
      else if key = ''device'' then current_device v
      else if key = ''transport'' then current_transport v
      else if key = ''rotational'' then current_rotational v
      else [])"

definition field_v1 :: "string \<Rightarrow> v1_vars \<Rightarrow> string" where
  "field_v1 key v =
     (if key = ''id'' then current_id v
      else if key = ''temp'' then current_temp v
      else if key = ''type'' then current_type v
      else [])"

section \<open>Properties\<close>

subsection \<open>Logging and sending\<close>

lemma sent_log [simp]: "sent (log msg out) = sent out"
  by (simp add: log_def)

lemma disk_count_log [simp]: "disk_count (log msg out) = disk_count out"
  by (simp add: log_def)

lemma console_log [simp]: "console (log msg out) = console out @ [msg]"
  by (simp add: log_def LOG_ENABLED_def)

lemma sent_udp_send [simp]: "sent (udp_send m out) = sent out @ [m]"
  by (simp add: udp_send_def)

lemma disk_count_udp_send [simp]: "disk_count (udp_send m out) = disk_count out"
  by (simp add: udp_send_def)

lemma console_udp_send [simp]: "console (udp_send m out) = console out"
  by (simp add: udp_send_def)

lemma sent_process_metric_v2:
  "sent (process_metric_v2 v out) = sent out @ (if valid_v2 v then [metric_v2 v] else [])"
  by (simp add: process_metric_v2_def valid_v2_def Let_def)

lemma disk_count_process_metric_v2:
  "disk_count (process_metric_v2 v out) = disk_count out + (if valid_v2 v then 1 else 0)"
  by (simp add: process_metric_v2_def valid_v2_def Let_def)

lemma sent_process_metric_v1:
  "sent (process_metric_v1 v out) = sent out @ (if valid_v1 v then [metric_v1 v] else [])"
  by (simp add: process_metric_v1_def valid_v1_def Let_def)

lemma disk_count_process_metric_v1:
  "disk_count (process_metric_v1 v out) = disk_count out + (if valid_v1 v then 1 else 0)"
  by (simp add: process_metric_v1_def valid_v1_def Let_def)

lemma not_upper_to_lower: "\<not> is_upper (to_lower c)"
  by (simp add: to_lower_def is_upper_def)

lemma tr_lower_no_upper: "list_all (\<lambda>c. \<not> is_upper c) (tr_lower s)"
  by (simp add: tr_lower_def list_all_iff not_upper_to_lower)

subsection \<open>The loop of the multi-field script\<close>

lemma loop_body_v2_header:
  "is_header_line l \<Longrightarrow> loop_body_v2 l (v, out) = (reset_v2, process_metric_v2 v out)"
  by (simp add: loop_body_v2_def is_header_line_def)

lemma loop_body_v2_other:
  "\<not> is_header_line l \<Longrightarrow> snd (loop_body_v2 l (v, out)) = out"
  "\<not> is_header_line l \<Longrightarrow> fst (loop_body_v2 l (v, out)) = fst (loop_body_v2 l (v, out'))"
  by (simp_all add: loop_body_v2_def is_header_line_def Let_def)

lemma main_loop_v2_body:
  "no_header body \<Longrightarrow>
   main_loop_v2 body (v, out) = (fst (main_loop_v2 body (v, out')), out)"
proof (induction body arbitrary: v)
  case Nil
  show ?case by simp
next
  case (Cons l body)
  from Cons.prems have nh: "\<not> is_header_line l" and rest: "no_header body"
    by (simp_all add: no_header_def)
  obtain w where w: "loop_body_v2 l (v, out) = (w, out)"
    using loop_body_v2_other(1) [OF nh, of v out] by (cases "loop_body_v2 l (v, out)") simp
  have w': "loop_body_v2 l (v, out') = (w, out')"
    using loop_body_v2_other [OF nh, of v out'] loop_body_v2_other(2) [OF nh, of v out out'] w
    by (cases "loop_body_v2 l (v, out')") simp
  show ?case using Cons.IH [OF rest, of w] by (simp add: w w')
qed

lemma main_loop_v2_append:
  "main_loop_v2 (xs @ ys) s = main_loop_v2 ys (main_loop_v2 xs s)"
  by (induction xs arbitrary: s) simp_all

lemma main_loop_v2_section:
  assumes "is_header_line (fst sec)" "no_header (snd sec)"
  shows "main_loop_v2 (section_lines sec) (v, out) = (section_vars_v2 sec, process_metric_v2 v out)"
proof -
  have "main_loop_v2 (section_lines sec) (v, out)
        = main_loop_v2 (snd sec) (reset_v2, process_metric_v2 v out)"
    using assms(1) by (simp add: section_lines_def loop_body_v2_header)
  also have "\<dots> = (fst (main_loop_v2 (snd sec) (reset_v2, out_nil)), process_metric_v2 v out)"
    by (rule main_loop_v2_body [OF assms(2)])
  finally show ?thesis by (simp add: section_vars_v2_def)
qed

lemma flush_sections_v2:
  "list_all good_section_v2 secs \<Longrightarrow>
   sent (process_metric_v2 (fst (main_loop_v2 (concat (map section_lines secs)) (v, out)))
                           (snd (main_loop_v2 (concat (map section_lines secs)) (v, out))))
   = sent out @ (if valid_v2 v then [metric_v2 v] else []) @
     map (\<lambda>sec. metric_v2 (section_vars_v2 sec)) secs"
proof (induction secs arbitrary: v out)
  case Nil
  show ?case by (simp add: sent_process_metric_v2)
next
  case (Cons sec secs)
  from Cons.prems have g: "good_section_v2 sec" and rest: "list_all good_section_v2 secs"
    by simp_all
  from g have h: "is_header_line (fst sec)" and b: "no_header (snd sec)"
    and ok: "valid_v2 (section_vars_v2 sec)"
    by (simp_all add: good_section_v2_def)
  show ?case
    using Cons.IH [OF rest, of "section_vars_v2 sec" "process_metric_v2 v out"] ok
    by (simp add: main_loop_v2_append main_loop_v2_section [OF h b] sent_process_metric_v2)
qed

lemma count_sections_v2:
  "list_all good_section_v2 secs \<Longrightarrow>
   disk_count (process_metric_v2 (fst (main_loop_v2 (concat (map section_lines secs)) (v, out)))
                           (snd (main_loop_v2 (concat (map section_lines secs)) (v, out))))
   = disk_count out + (if valid_v2 v then 1 else 0) + length secs"
proof (induction secs arbitrary: v out)
  case Nil
  show ?case by (simp add: disk_count_process_metric_v2)
next
  case (Cons sec secs)
  from Cons.prems have g: "good_section_v2 sec" and rest: "list_all good_section_v2 secs"
    by simp_all
  from g have h: "is_header_line (fst sec)" and b: "no_header (snd sec)"
    and ok: "valid_v2 (section_vars_v2 sec)"
    by (simp_all add: good_section_v2_def)
  show ?case
    using Cons.IH [OF rest, of "section_vars_v2 sec" "process_metric_v2 v out"] ok
    by (simp add: main_loop_v2_append main_loop_v2_section [OF h b] disk_count_process_metric_v2)
qed

lemma not_valid_reset_v2: "\<not> valid_v2 reset_v2"
  by (simp add: valid_v2_def reset_v2_def)

lemma fst_main_loop_v2:
  "fst (main_loop_v2 ls (v, out)) = fst (main_loop_v2 ls (v, out'))"
proof (induction ls arbitrary: v out out')
  case Nil
  show ?case by simp
next
  case (Cons l ls)
  show ?case
  proof (cases "is_header_line l")
    case True
    show ?thesis unfolding main_loop_v2.simps loop_body_v2_header [OF True] by (rule Cons.IH)
  next
    case False
    obtain w where w: "loop_body_v2 l (v, out) = (w, out)"
      using loop_body_v2_other(1) [OF False, of v out] by (cases "loop_body_v2 l (v, out)") simp
    have w': "loop_body_v2 l (v, out') = (w, out')"
      using loop_body_v2_other(1) [OF False, of v out'] loop_body_v2_other(2) [OF False, of v out out'] w
      by (cases "loop_body_v2 l (v, out')") simp
    show ?thesis unfolding main_loop_v2.simps w w' by (rule Cons.IH)
  qed
qed

lemma sent_main_loop_v2:
  "sent (snd (main_loop_v2 ls (v, out))) = sent out @ sent (snd (main_loop_v2 ls (v, out_nil)))"
proof (induction ls arbitrary: v out)
  case Nil
  show ?case by (simp add: out_nil_def)
next
  case (Cons l ls)
  show ?case
  proof (cases "is_header_line l")
    case True
    have a: "sent (snd (main_loop_v2 ls (reset_v2, process_metric_v2 v out)))
             = sent (process_metric_v2 v out) @ sent (snd (main_loop_v2 ls (reset_v2, out_nil)))"
      by (rule Cons.IH)
    have b: "sent (snd (main_loop_v2 ls (reset_v2, process_metric_v2 v out_nil)))
             = sent (process_metric_v2 v out_nil) @ sent (snd (main_loop_v2 ls (reset_v2, out_nil)))"
      by (rule Cons.IH)
    show ?thesis using True a b
      by (simp add: loop_body_v2_header sent_process_metric_v2 out_nil_def)
  next
    case False
    obtain w where w: "loop_body_v2 l (v, out) = (w, out)"
      using loop_body_v2_other(1) [OF False, of v out] by (cases "loop_body_v2 l (v, out)") simp
    have w': "loop_body_v2 l (v, out_nil) = (w, out_nil)"
      using loop_body_v2_other(1) [OF False, of v out_nil] loop_body_v2_other(2) [OF False, of v out out_nil] w
      by (cases "loop_body_v2 l (v, out_nil)") simp
    show ?thesis unfolding main_loop_v2.simps w w' by (rule Cons.IH)
  qed
qed

lemma disk_count_main_loop_v2:
  "disk_count (snd (main_loop_v2 ls (v, out)))
   = disk_count out + disk_count (snd (main_loop_v2 ls (v, out_nil)))"
proof (induction ls arbitrary: v out)
  case Nil
  show ?case by (simp add: out_nil_def)
next
  case (Cons l ls)
  show ?case
  proof (cases "is_header_line l")
    case True
    have a: "disk_count (snd (main_loop_v2 ls (reset_v2, process_metric_v2 v out)))
             = disk_count (process_metric_v2 v out) + disk_count (snd (main_loop_v2 ls (reset_v2, out_nil)))"
      by (rule Cons.IH)
    have b: "disk_count (snd (main_loop_v2 ls (reset_v2, process_metric_v2 v out_nil)))
             = disk_count (process_metric_v2 v out_nil) + disk_count (snd (main_loop_v2 ls (reset_v2, out_nil)))"
      by (rule Cons.IH)
    show ?thesis using True a b
      by (simp add: loop_body_v2_header disk_count_process_metric_v2 out_nil_def)
  next
    case False
    obtain w where w: "loop_body_v2 l (v, out) = (w, out)"
      using loop_body_v2_other(1) [OF False, of v out] by (cases "loop_body_v2 l (v, out)") simp
    have w': "loop_body_v2 l (v, out_nil) = (w, out_nil)"
      using loop_body_v2_other(1) [OF False, of v out_nil] loop_body_v2_other(2) [OF False, of v out out_nil] w
      by (cases "loop_body_v2 l (v, out_nil)") simp
    show ?thesis unfolding main_loop_v2.simps w w' by (rule Cons.IH)
  qed
qed

text \<open>What a run sends and counts is the end-of-input call after the loop, whatever was logged before.\<close>

lemma sent_main_v2:
  "sent (snd (main_v2 (Some content))) =
   sent (process_metric_v2 (fst (main_loop_v2 (read_lines content) (reset_v2, out_nil)))
                           (snd (main_loop_v2 (read_lines content) (reset_v2, out_nil))))"
proof -
  let ?out1 = "log (''Found disk info file, starting parsing: '' @ DISKS_INI)
                 (log ''--- Script execution started. ---'' \<lparr>disk_count = 0, sent = [], console = []\<rparr>)"
  have s: "sent ?out1 = []" by simp
  have "sent (snd (main_v2 (Some content))) =
        sent (process_metric_v2 (fst (main_loop_v2 (read_lines content) (reset_v2, ?out1)))
                                (snd (main_loop_v2 (read_lines content) (reset_v2, ?out1))))"
    by (simp add: main_v2_def Let_def)
  also have "\<dots> = sent (snd (main_loop_v2 (read_lines content) (reset_v2, out_nil))) @
        (if valid_v2 (fst (main_loop_v2 (read_lines content) (reset_v2, out_nil))) then
           [metric_v2 (fst (main_loop_v2 (read_lines content) (reset_v2, out_nil)))] else [])"
    using sent_main_loop_v2 [of "read_lines content" reset_v2 ?out1]
          fst_main_loop_v2 [of "read_lines content" reset_v2 ?out1 out_nil] s
    by (simp only: sent_process_metric_v2 append_Nil)
  finally show ?thesis by (simp add: sent_process_metric_v2)
qed

lemma disk_count_main_v2:
  "disk_count (snd (main_v2 (Some content))) =
   disk_count (process_metric_v2 (fst (main_loop_v2 (read_lines content) (reset_v2, out_nil)))
                           (snd (main_loop_v2 (read_lines content) (reset_v2, out_nil))))"
proof -
  let ?out1 = "log (''Found disk info file, starting parsing: '' @ DISKS_INI)
                 (log ''--- Script execution started. ---'' \<lparr>disk_count = 0, sent = [], console = []\<rparr>)"
  have s: "disk_count ?out1 = 0" by simp
  have "disk_count (snd (main_v2 (Some content))) =
        disk_count (process_metric_v2 (fst (main_loop_v2 (read_lines content) (reset_v2, ?out1)))
                                (snd (main_loop_v2 (read_lines content) (reset_v2, ?out1))))"
    by (simp add: main_v2_def Let_def)
  also have "\<dots> = disk_count (snd (main_loop_v2 (read_lines content) (reset_v2, out_nil))) +
        (if valid_v2 (fst (main_loop_v2 (read_lines content) (reset_v2, out_nil))) then 1 else 0)"
    using disk_count_main_loop_v2 [of "read_lines content" reset_v2 ?out1]
          fst_main_loop_v2 [of "read_lines content" reset_v2 ?out1 out_nil] s
    by (simp only: disk_count_process_metric_v2 add_0)
  finally show ?thesis by (simp add: disk_count_process_metric_v2)
qed

lemma header_flushes_v2:
  "is_header_line h \<Longrightarrow>
   snd (main_loop_v2 (ls @ [h]) s) = process_metric_v2 (fst (main_loop_v2 ls s)) (snd (main_loop_v2 ls s))"
  by (cases "main_loop_v2 ls s") (simp add: main_loop_v2_append loop_body_v2_header)

subsection \<open>The loop of the slot script\<close>

lemma loop_body_v1_header:
  "is_header_line l \<Longrightarrow> loop_body_v1 l (v, out) = (reset_v1 (sed_trim (echo l)), process_metric_v1 v out)"
  by (simp add: loop_body_v1_def is_header_line_def Let_def)

lemma loop_body_v1_other:
  "\<not> is_header_line l \<Longrightarrow> snd (loop_body_v1 l (v, out)) = out"
  "\<not> is_header_line l \<Longrightarrow> fst (loop_body_v1 l (v, out)) = fst (loop_body_v1 l (v, out'))"
  by (simp_all add: loop_body_v1_def is_header_line_def Let_def)

lemma main_loop_v1_body:
  "no_header body \<Longrightarrow>
   main_loop_v1 body (v, out) = (fst (main_loop_v1 body (v, out')), out)"
proof (induction body arbitrary: v)
  case Nil
  show ?case by simp
next
  case (Cons l body)
  from Cons.prems have nh: "\<not> is_header_line l" and rest: "no_header body"
    by (simp_all add: no_header_def)
  obtain w where w: "loop_body_v1 l (v, out) = (w, out)"
    using loop_body_v1_other(1) [OF nh, of v out] by (cases "loop_body_v1 l (v, out)") simp
  have w': "loop_body_v1 l (v, out') = (w, out')"
    using loop_body_v1_other [OF nh, of v out'] loop_body_v1_other(2) [OF nh, of v out out'] w
    by (cases "loop_body_v1 l (v, out')") simp
  show ?case using Cons.IH [OF rest, of w] by (simp add: w w')
qed

lemma main_loop_v1_append:
  "main_loop_v1 (xs @ ys) s = main_loop_v1 ys (main_loop_v1 xs s)"
  by (induction xs arbitrary: s) simp_all

lemma main_loop_v1_section:
  assumes "is_header_line (fst sec)" "no_header (snd sec)"
  shows "main_loop_v1 (section_lines sec) (v, out) = (section_vars_v1 sec, process_metric_v1 v out)"
proof -
  have "main_loop_v1 (section_lines sec) (v, out)
        = main_loop_v1 (snd sec) (reset_v1 (sed_trim (echo (fst sec))), process_metric_v1 v out)"
    using assms(1) by (simp add: section_lines_def loop_body_v1_header)
  also have "\<dots> = (fst (main_loop_v1 (snd sec) (reset_v1 (sed_trim (echo (fst sec))), out_nil)), process_metric_v1 v out)"
    by (rule main_loop_v1_body [OF assms(2)])
  finally show ?thesis by (simp add: section_vars_v1_def)
qed

lemma flush_sections_v1:
  "list_all good_section_v1 secs \<Longrightarrow>
   sent (process_metric_v1 (fst (main_loop_v1 (concat (map section_lines secs)) (v, out)))
                           (snd (main_loop_v1 (concat (map section_lines secs)) (v, out))))
   = sent out @ (if valid_v1 v then [metric_v1 v] else []) @
     map (\<lambda>sec. metric_v1 (section_vars_v1 sec)) secs"
proof (induction secs arbitrary: v out)
  case Nil
  show ?case by (simp add: sent_process_metric_v1)
next
  case (Cons sec secs)
  from Cons.prems have g: "good_section_v1 sec" and rest: "list_all good_section_v1 secs"
    by simp_all
  from g have h: "is_header_line (fst sec)" and b: "no_header (snd sec)"
    and ok: "valid_v1 (section_vars_v1 sec)"
    by (simp_all add: good_section_v1_def)
  show ?case
    using Cons.IH [OF rest, of "section_vars_v1 sec" "process_metric_v1 v out"] ok
    by (simp add: main_loop_v1_append main_loop_v1_section [OF h b] sent_process_metric_v1)
qed

lemma count_sections_v1:
  "list_all good_section_v1 secs \<Longrightarrow>
   disk_count (process_metric_v1 (fst (main_loop_v1 (concat (map section_lines secs)) (v, out)))
                           (snd (main_loop_v1 (concat (map section_lines secs)) (v, out))))
   = disk_count out + (if valid_v1 v then 1 else 0) + length secs"
proof (induction secs arbitrary: v out)
  case Nil
  show ?case by (simp add: disk_count_process_metric_v1)
next
  case (Cons sec secs)
  from Cons.prems have g: "good_section_v1 sec" and rest: "list_all good_section_v1 secs"
    by simp_all
  from g have h: "is_header_line (fst sec)" and b: "no_header (snd sec)"
    and ok: "valid_v1 (section_vars_v1 sec)"
    by (simp_all add: good_section_v1_def)
  show ?case
    using Cons.IH [OF rest, of "section_vars_v1 sec" "process_metric_v1 v out"] ok
    by (simp add: main_loop_v1_append main_loop_v1_section [OF h b] disk_count_process_metric_v1)
qed

lemma not_valid_init_v1: "\<not> valid_v1 init_v1"
  by (simp add: valid_v1_def init_v1_def)

lemma fst_main_loop_v1:
  "fst (main_loop_v1 ls (v, out)) = fst (main_loop_v1 ls (v, out'))"
proof (induction ls arbitrary: v out out')
  case Nil
  show ?case by simp
next
  case (Cons l ls)
  show ?case
  proof (cases "is_header_line l")
    case True
    show ?thesis unfolding main_loop_v1.simps loop_body_v1_header [OF True] by (rule Cons.IH)
  next
    case False
    obtain w where w: "loop_body_v1 l (v, out) = (w, out)"
      using loop_body_v1_other(1) [OF False, of v out] by (cases "loop_body_v1 l (v, out)") simp
    have w': "loop_body_v1 l (v, out') = (w, out')"
      using loop_body_v1_other(1) [OF False, of v out'] loop_body_v1_other(2) [OF False, of v out out'] w
      by (cases "loop_body_v1 l (v, out')") simp
    show ?thesis unfolding main_loop_v1.simps w w' by (rule Cons.IH)
  qed
qed

lemma sent_main_loop_v1:
  "sent (snd (main_loop_v1 ls (v, out))) = sent out @ sent (snd (main_loop_v1 ls (v, out_nil)))"
proof (induction ls arbitrary: v out)
  case Nil
  show ?case by (simp add: out_nil_def)
next
  case (Cons l ls)
  show ?case
  proof (cases "is_header_line l")
    case True
    have a: "sent (snd (main_loop_v1 ls (reset_v1 (sed_trim (echo l)), process_metric_v1 v out)))
             = sent (process_metric_v1 v out) @ sent (snd (main_loop_v1 ls (reset_v1 (sed_trim (echo l)), out_nil)))"
      by (rule Cons.IH)
    have b: "sent (snd (main_loop_v1 ls (reset_v1 (sed_trim (echo l)), process_metric_v1 v out_nil)))
             = sent (process_metric_v1 v out_nil) @ sent (snd (main_loop_v1 ls (reset_v1 (sed_trim (echo l)), out_nil)))"
      by (rule Cons.IH)
    show ?thesis using True a b
      by (simp add: loop_body_v1_header sent_process_metric_v1 out_nil_def)
  next
    case False
    obtain w where w: "loop_body_v1 l (v, out) = (w, out)"
      using loop_body_v1_other(1) [OF False, of v out] by (cases "loop_body_v1 l (v, out)") simp
    have w': "loop_body_v1 l (v, out_nil) = (w, out_nil)"
      using loop_body_v1_other(1) [OF False, of v out_nil] loop_body_v1_other(2) [OF False, of v out out_nil] w
      by (cases "loop_body_v1 l (v, out_nil)") simp
    show ?thesis unfolding main_loop_v1.simps w w' by (rule Cons.IH)
  qed
qed

lemma disk_count_main_loop_v1:
  "disk_count (snd (main_loop_v1 ls (v, out)))
   = disk_count out + disk_count (snd (main_loop_v1 ls (v, out_nil)))"
proof (induction ls arbitrary: v out)
  case Nil
  show ?case by (simp add: out_nil_def)
next
  case (Cons l ls)
  show ?case
  proof (cases "is_header_line l")
    case True
    have a: "disk_count (snd (main_loop_v1 ls (reset_v1 (sed_trim (echo l)), process_metric_v1 v out)))
             = disk_count (process_metric_v1 v out) + disk_count (snd (main_loop_v1 ls (reset_v1 (sed_trim (echo l)), out_nil)))"
      by (rule Cons.IH)
    have b: "disk_count (snd (main_loop_v1 ls (reset_v1 (sed_trim (echo l)), process_metric_v1 v out_nil)))
             = disk_count (process_metric_v1 v out_nil) + disk_count (snd (main_loop_v1 ls (reset_v1 (sed_trim (echo l)), out_nil)))"
      by (rule Cons.IH)
    show ?thesis using True a b
      by (simp add: loop_body_v1_header disk_count_process_metric_v1 out_nil_def)
  next
    case False
    obtain w where w: "loop_body_v1 l (v, out) = (w, out)"
      using loop_body_v1_other(1) [OF False, of v out] by (cases "loop_body_v1 l (v, out)") simp
    have w': "loop_body_v1 l (v, out_nil) = (w, out_nil)"
      using loop_body_v1_other(1) [OF False, of v out_nil] loop_body_v1_other(2) [OF False, of v out out_nil] w
      by (cases "loop_body_v1 l (v, out_nil)") simp
    show ?thesis unfolding main_loop_v1.simps w w' by (rule Cons.IH)
  qed
qed

text \<open>What a run sends and counts is the end-of-input call after the loop, whatever was logged before.\<close>

lemma sent_main_v1:
  "sent (snd (main_v1 (Some content))) =
   sent (process_metric_v1 (fst (main_loop_v1 (read_lines content) (init_v1, out_nil)))
                           (snd (main_loop_v1 (read_lines content) (init_v1, out_nil))))"
proof -
  let ?out1 = "log (''Found disk info file, starting parsing: '' @ DISKS_INI)
                 (log ''--- Script execution started. ---'' \<lparr>disk_count = 0, sent = [], console = []\<rparr>)"
  have s: "sent ?out1 = []" by simp
  have "sent (snd (main_v1 (Some content))) =
        sent (process_metric_v1 (fst (main_loop_v1 (read_lines content) (init_v1, ?out1)))
                                (snd (main_loop_v1 (read_lines content) (init_v1, ?out1))))"
    by (simp add: main_v1_def Let_def)
  also have "\<dots> = sent (snd (main_loop_v1 (read_lines content) (init_v1, out_nil))) @
        (if valid_v1 (fst (main_loop_v1 (read_lines content) (init_v1, out_nil))) then
           [metric_v1 (fst (main_loop_v1 (read_lines content) (init_v1, out_nil)))] else [])"
    using sent_main_loop_v1 [of "read_lines content" init_v1 ?out1]
          fst_main_loop_v1 [of "read_lines content" init_v1 ?out1 out_nil] s
    by (simp only: sent_process_metric_v1 append_Nil)
  finally show ?thesis by (simp add: sent_process_metric_v1)
qed

lemma disk_count_main_v1:
  "disk_count (snd (main_v1 (Some content))) =
   disk_count (process_metric_v1 (fst (main_loop_v1 (read_lines content) (init_v1, out_nil)))
                           (snd (main_loop_v1 (read_lines content) (init_v1, out_nil))))"
proof -
  let ?out1 = "log (''Found disk info file, starting parsing: '' @ DISKS_INI)
                 (log ''--- Script execution started. ---'' \<lparr>disk_count = 0, sent = [], console = []\<rparr>)"
  have s: "disk_count ?out1 = 0" by simp
  have "disk_count (snd (main_v1 (Some content))) =
        disk_count (process_metric_v1 (fst (main_loop_v1 (read_lines content) (init_v1, ?out1)))
                                (snd (main_loop_v1 (read_lines content) (init_v1, ?out1))))"
    by (simp add: main_v1_def Let_def)
  also have "\<dots> = disk_count (snd (main_loop_v1 (read_lines content) (init_v1, out_nil))) +
        (if valid_v1 (fst (main_loop_v1 (read_lines content) (init_v1, out_nil))) then 1 else 0)"
    using disk_count_main_loop_v1 [of "read_lines content" init_v1 ?out1]
          fst_main_loop_v1 [of "read_lines content" init_v1 ?out1 out_nil] s
    by (simp only: disk_count_process_metric_v1 add_0)
  finally show ?thesis by (simp add: disk_count_process_metric_v1)
qed

lemma header_flushes_v1:
  "is_header_line h \<Longrightarrow>
   snd (main_loop_v1 (ls @ [h]) s) = process_metric_v1 (fst (main_loop_v1 ls s)) (snd (main_loop_v1 ls s))"
  by (cases "main_loop_v1 ls s") (simp add: main_loop_v1_append loop_body_v1_header)

subsection \<open>The lines of a text file\<close>

text \<open>
  A text file, every line of which ends in a newline, gives the loop its lines one by
  one; bytes after the last newline are not given to it.
\<close>

lemma read_from_line:
  "list_all (\<lambda>c. c \<noteq> CHR 0x0A \<and> c \<noteq> CHR 0x00) l \<Longrightarrow>
   read_from acc (l @ CHR 0x0A # rest) = (acc @ l) # read_from [] rest"
  by (induction l arbitrary: acc) simp_all

lemma read_lines_text:
  "list_all (list_all (\<lambda>c. c \<noteq> CHR 0x0A \<and> c \<noteq> CHR 0x00)) ls \<Longrightarrow>
   read_lines (concat (map (\<lambda>l. l @ [CHR 0x0A]) ls)) = ls"
proof (induction ls)
  case Nil
  show ?case by (simp add: read_lines_def)
next
  case (Cons l ls)
  then show ?case using read_from_line [of l "[]"] by (simp add: read_lines_def)
qed

lemma read_lines_unterminated:
  \<open>read_lines ''["disk1"]\<newline>name="disk1"\<newline>temp="38"'' = [''["disk1"]'', ''name="disk1"'']\<close>
  by code_simp

section \<open>The claims\<close>

subsection \<open>C8: the exit status\<close>

text \<open>
  C8: with no input file either script exits with status 1 and sends nothing; with any
  input file it exits with status 0, and what it has sent is what the loop over all the
  lines the file gives, then the call at end of input, send.
\<close>

theorem exit_status:
  "fst (main_v2 None) = 1 \<and> sent (snd (main_v2 None)) = [] \<and>
   fst (main_v1 None) = 1 \<and> sent (snd (main_v1 None)) = [] \<and>
   fst (main_v2 (Some content)) = 0 \<and>
   sent (snd (main_v2 (Some content))) =
     sent (process_metric_v2 (fst (main_loop_v2 (read_lines content) (reset_v2, out_nil)))
                             (snd (main_loop_v2 (read_lines content) (reset_v2, out_nil)))) \<and>
   fst (main_v1 (Some content)) = 0 \<and>
   sent (snd (main_v1 (Some content))) =
     sent (process_metric_v1 (fst (main_loop_v1 (read_lines content) (init_v1, out_nil)))
                             (snd (main_loop_v1 (read_lines content) (init_v1, out_nil))))"
proof -
  have a: "fst (main_v2 None) = 1" "sent (snd (main_v2 None)) = []"
    by (simp_all add: main_v2_def)
  have b: "fst (main_v1 None) = 1" "sent (snd (main_v1 None)) = []"
    by (simp_all add: main_v1_def)
  have c: "fst (main_v2 (Some content)) = 0" "fst (main_v1 (Some content)) = 0"
    by (simp_all add: main_v2_def main_v1_def Let_def)
  show ?thesis using a b c sent_main_v2 [of content] sent_main_v1 [of content] by simp
qed

subsection \<open>C3: validation of a record\<close>

lemma console_process_metric_v2_skip:
  "current_name v \<noteq> [] \<Longrightarrow> current_temp v \<noteq> [] \<Longrightarrow> \<not> is_numeric (current_temp v) \<Longrightarrow>
   console (process_metric_v2 v out) =
   console out @ [''Skipping disk '' @ quoted (current_name v) @ '' because temperature ('' @
                  quoted (current_temp v) @ '') is not a valid number.'']"
  by (simp add: process_metric_v2_def)

lemma console_process_metric_v2_silent:
  "current_name v = [] \<or> current_temp v = [] \<Longrightarrow> console (process_metric_v2 v out) = console out"
  by (auto simp add: process_metric_v2_def)

lemma console_process_metric_v1_skip:
  "current_slot v \<noteq> [] \<Longrightarrow> current_temp v \<noteq> [] \<Longrightarrow> \<not> is_numeric (current_temp v) \<Longrightarrow>
   console (process_metric_v1 v out) =
   console out @ [''Skipping disk '' @ quoted (current_slot v) @ '' because temperature ('' @
                  quoted (current_temp v) @ '') is not a valid number.'']"
  by (simp add: process_metric_v1_def)

lemma console_process_metric_v1_silent:
  "current_slot v = [] \<or> current_temp v = [] \<Longrightarrow> console (process_metric_v1 v out) = console out"
  by (auto simp add: process_metric_v1_def)

lemma discard_keeps_later_v2:
  assumes "\<not> valid_v2 v"
  shows "sent (snd (main_loop_v2 ls (w, process_metric_v2 v out))) = sent (snd (main_loop_v2 ls (w, out)))"
proof -
  have "sent (snd (main_loop_v2 ls (w, process_metric_v2 v out)))
        = sent (process_metric_v2 v out) @ sent (snd (main_loop_v2 ls (w, out_nil)))"
    by (rule sent_main_loop_v2)
  also have "\<dots> = sent out @ sent (snd (main_loop_v2 ls (w, out_nil)))"
    using assms by (simp add: sent_process_metric_v2)
  also have "\<dots> = sent (snd (main_loop_v2 ls (w, out)))"
    by (rule sent_main_loop_v2 [symmetric])
  finally show ?thesis .
qed

lemma discard_keeps_later_v1:
  assumes "\<not> valid_v1 v"
  shows "sent (snd (main_loop_v1 ls (w, process_metric_v1 v out))) = sent (snd (main_loop_v1 ls (w, out)))"
proof -
  have "sent (snd (main_loop_v1 ls (w, process_metric_v1 v out)))
        = sent (process_metric_v1 v out) @ sent (snd (main_loop_v1 ls (w, out_nil)))"
    by (rule sent_main_loop_v1)
  also have "\<dots> = sent out @ sent (snd (main_loop_v1 ls (w, out_nil)))"
    using assms by (simp add: sent_process_metric_v1)
  also have "\<dots> = sent (snd (main_loop_v1 ls (w, out)))"
    by (rule sent_main_loop_v1 [symmetric])
  finally show ?thesis .
qed

text \<open>
  C3 as the specification has it fails where it says that every discarded record is
  logged: a section with a name and no temperature is dropped and no line of the
  console tells of it.
\<close>

theorem silent_discard_counterexample:
  \<open>\<not> valid_v2 (section_vars_v2 (''["disk2"]'', [''name="disk2"''])) \<and>
   sent (snd (main_v2 (Some ''["disk2"]\<newline>name="disk2"\<newline>''))) = [] \<and>
   console (snd (main_v2 (Some ''["disk2"]\<newline>name="disk2"\<newline>''))) =
     [''--- Script execution started. ---'',
      ''Found disk info file, starting parsing: /var/local/emhttp/disks.ini'',
      ''Processed and sent metrics for 0 disks.'',
      ''--- Script execution finished. ---'']\<close>
  by code_simp

text \<open>
  C3, amended: \<^verbatim>\<open>process_metric\<close> sends one metric and counts one disk exactly when
  the identifier and the temperature are not empty and the temperature is all digits.
  Otherwise nothing is sent or counted, and the variables and datagrams of the lines
  that follow are the same as if the record had never been there. A record with an
  identifier and a temperature that is not all digits is logged as skipped; a record
  with an empty identifier or an empty temperature is dropped without a log line.
\<close>

theorem metric_sent_iff_valid:
  "(valid_v2 v \<longrightarrow>
      sent (process_metric_v2 v out) = sent out @ [metric_v2 v] \<and>
      disk_count (process_metric_v2 v out) = Suc (disk_count out)) \<and>
   (\<not> valid_v2 v \<longrightarrow>
      sent (process_metric_v2 v out) = sent out \<and>
      disk_count (process_metric_v2 v out) = disk_count out \<and>
      fst (main_loop_v2 ls (w, process_metric_v2 v out)) = fst (main_loop_v2 ls (w, out)) \<and>
      sent (snd (main_loop_v2 ls (w, process_metric_v2 v out))) = sent (snd (main_loop_v2 ls (w, out)))) \<and>
   (current_name v \<noteq> [] \<and> current_temp v \<noteq> [] \<and> \<not> is_numeric (current_temp v) \<longrightarrow>
      console (process_metric_v2 v out) =
      console out @ [''Skipping disk '' @ quoted (current_name v) @ '' because temperature ('' @
                     quoted (current_temp v) @ '') is not a valid number.'']) \<and>
   (current_name v = [] \<or> current_temp v = [] \<longrightarrow>
      console (process_metric_v2 v out) = console out) \<and>
   (valid_v1 u \<longrightarrow>
      sent (process_metric_v1 u out) = sent out @ [metric_v1 u] \<and>
      disk_count (process_metric_v1 u out) = Suc (disk_count out)) \<and>
   (\<not> valid_v1 u \<longrightarrow>
      sent (process_metric_v1 u out) = sent out \<and>
      disk_count (process_metric_v1 u out) = disk_count out \<and>
      fst (main_loop_v1 ls (x, process_metric_v1 u out)) = fst (main_loop_v1 ls (x, out)) \<and>
      sent (snd (main_loop_v1 ls (x, process_metric_v1 u out))) = sent (snd (main_loop_v1 ls (x, out)))) \<and>
   (current_slot u \<noteq> [] \<and> current_temp u \<noteq> [] \<and> \<not> is_numeric (current_temp u) \<longrightarrow>
      console (process_metric_v1 u out) =
      console out @ [''Skipping disk '' @ quoted (current_slot u) @ '' because temperature ('' @
                     quoted (current_temp u) @ '') is not a valid number.'']) \<and>
   (current_slot u = [] \<or> current_temp u = [] \<longrightarrow>
      console (process_metric_v1 u out) = console out)"
proof -
  have a2: "valid_v2 v \<longrightarrow>
      sent (process_metric_v2 v out) = sent out @ [metric_v2 v] \<and>
      disk_count (process_metric_v2 v out) = Suc (disk_count out)"
    by (simp add: sent_process_metric_v2 disk_count_process_metric_v2)
  have b2: "\<not> valid_v2 v \<longrightarrow>
      sent (process_metric_v2 v out) = sent out \<and>
      disk_count (process_metric_v2 v out) = disk_count out \<and>
      fst (main_loop_v2 ls (w, process_metric_v2 v out)) = fst (main_loop_v2 ls (w, out)) \<and>
      sent (snd (main_loop_v2 ls (w, process_metric_v2 v out))) = sent (snd (main_loop_v2 ls (w, out)))"
    using fst_main_loop_v2 [of ls w "process_metric_v2 v out" out] discard_keeps_later_v2 [of v ls w out]
    by (simp add: sent_process_metric_v2 disk_count_process_metric_v2)
  have a1: "valid_v1 u \<longrightarrow>
      sent (process_metric_v1 u out) = sent out @ [metric_v1 u] \<and>
      disk_count (process_metric_v1 u out) = Suc (disk_count out)"
    by (simp add: sent_process_metric_v1 disk_count_process_metric_v1)
  have b1: "\<not> valid_v1 u \<longrightarrow>
      sent (process_metric_v1 u out) = sent out \<and>
      disk_count (process_metric_v1 u out) = disk_count out \<and>
      fst (main_loop_v1 ls (x, process_metric_v1 u out)) = fst (main_loop_v1 ls (x, out)) \<and>
      sent (snd (main_loop_v1 ls (x, process_metric_v1 u out))) = sent (snd (main_loop_v1 ls (x, out)))"
    using fst_main_loop_v1 [of ls x "process_metric_v1 u out" out] discard_keeps_later_v1 [of u ls x out]
    by (simp add: sent_process_metric_v1 disk_count_process_metric_v1)
  show ?thesis
    using a2 b2 a1 b1
      console_process_metric_v2_skip [of v out] console_process_metric_v2_silent [of v out]
      console_process_metric_v1_skip [of u out] console_process_metric_v1_silent [of u out]
    by blast
qed

theorem metric_sent_iff_valid_witness:
  \<open>valid_v2 (section_vars_v2 (''["disk1"]'', [''name="disk1"'', ''temp="38"''])) \<and>
   sent (process_metric_v2 (section_vars_v2 (''["disk1"]'', [''name="disk1"'', ''temp="38"''])) out_nil)
     = [''unraid.disk.temperature:38|g|#disk_name:disk1,disk_id:,disk_type:,device:,transport:''] \<and>
   \<not> valid_v2 (section_vars_v2 (''["flash"]'', [''name="flash"'', ''temp="*"''])) \<and>
   sent (process_metric_v2 (section_vars_v2 (''["flash"]'', [''name="flash"'', ''temp="*"''])) out_nil) = [] \<and>
   console (process_metric_v2 (section_vars_v2 (''["flash"]'', [''name="flash"'', ''temp="*"''])) out_nil)
     = [''Skipping disk '' @ quoted ''flash'' @ '' because temperature ('' @ quoted ''*'' @
        '') is not a valid number.''] \<and>
   console (process_metric_v2 (section_vars_v2 (''["disk2"]'', [''name="disk2"''])) out_nil) = [] \<and>
   valid_v1 (section_vars_v1 (''["disk1"]'', [''temp="38"''])) \<and>
   sent (process_metric_v1 (section_vars_v1 (''["disk1"]'', [''temp="38"''])) out_nil)
     = [''unraid.disk.temperature:38|g|#disk_slot:disk1,disk_id:,disk_type:''] \<and>
   \<not> valid_v1 (section_vars_v1 (''["flash"]'', [''temp="*"''])) \<and>
   sent (process_metric_v1 (section_vars_v1 (''["flash"]'', [''temp="*"''])) out_nil) = [] \<and>
   console (process_metric_v1 (section_vars_v1 (''["flash"]'', [''temp="*"''])) out_nil)
     = [''Skipping disk '' @ quoted ''flash'' @ '' because temperature ('' @ quoted ''*'' @
        '') is not a valid number.''] \<and>
   console (process_metric_v1 (section_vars_v1 (''["disk2"]'', [])) out_nil) = []\<close>
proof -
  let ?a = \<open>section_vars_v2 (''["disk1"]'', [''name="disk1"'', ''temp="38"''])\<close>
  let ?b = \<open>section_vars_v2 (''["flash"]'', [''name="flash"'', ''temp="*"''])\<close>
  let ?c = \<open>section_vars_v2 (''["disk2"]'', [''name="disk2"''])\<close>
  let ?d = \<open>section_vars_v1 (''["disk1"]'', [''temp="38"''])\<close>
  let ?e = \<open>section_vars_v1 (''["flash"]'', [''temp="*"''])\<close>
  let ?f = \<open>section_vars_v1 (''["disk2"]'', [])\<close>
  have va: "valid_v2 ?a" by code_simp
  have ma: "metric_v2 ?a = ''unraid.disk.temperature:38|g|#disk_name:disk1,disk_id:,disk_type:,device:,transport:''"
    by code_simp
  have vb: "\<not> valid_v2 ?b" "current_name ?b = ''flash''" "current_temp ?b = ''*''"
    "\<not> is_numeric ''*''" by code_simp+
  have vc: "current_temp ?c = []" by code_simp
  have vd: "valid_v1 ?d" by code_simp
  have md: "metric_v1 ?d = ''unraid.disk.temperature:38|g|#disk_slot:disk1,disk_id:,disk_type:''"
    by code_simp
  have ve: "\<not> valid_v1 ?e" "current_slot ?e = ''flash''" "current_temp ?e = ''*''" by code_simp+
  have vf: "current_temp ?f = []" by code_simp
  have o: "sent out_nil = []" "console out_nil = []" by (simp_all add: out_nil_def)
  show ?thesis
    using metric_sent_iff_valid [where v = "?a" and out = out_nil and u = "?d" and ls = "[]" and w = reset_v2 and x = init_v1]
          metric_sent_iff_valid [where v = "?b" and out = out_nil and u = "?e" and ls = "[]" and w = reset_v2 and x = init_v1]
          metric_sent_iff_valid [where v = "?c" and out = out_nil and u = "?f" and ls = "[]" and w = reset_v2 and x = init_v1]
          va ma vb vc vd md ve vf o
    by simp
qed

subsection \<open>C5: the drive kind tag\<close>

text \<open>
  C5: the tags end with \<^verbatim>\<open>,drive_kind:hdd\<close> when the rotational value is exactly \<^verbatim>\<open>1\<close>,
  with \<^verbatim>\<open>,drive_kind:ssd\<close> when it is exactly \<^verbatim>\<open>0\<close>, and are the five other tags alone
  for every other value, the empty one included; these tags are what a valid record
  sends.
\<close>

theorem drive_kind_tag_iff_rotational:
  "(current_rotational v = ''1'' \<longrightarrow> tags_v2 v = base_tags_v2 v @ '',drive_kind:hdd'') \<and>
   (current_rotational v = ''0'' \<longrightarrow> tags_v2 v = base_tags_v2 v @ '',drive_kind:ssd'') \<and>
   (current_rotational v \<noteq> ''1'' \<and> current_rotational v \<noteq> ''0'' \<longrightarrow> tags_v2 v = base_tags_v2 v) \<and>
   (valid_v2 v \<longrightarrow>
      sent (process_metric_v2 v out) =
      sent out @ [METRIC_PREFIX @ ''.temperature:'' @ current_temp v @ ''|g|#'' @ tags_v2 v])"
  by (simp add: tags_v2_def drive_kind_def sent_process_metric_v2 metric_v2_def)

theorem drive_kind_tag_iff_rotational_witness:
  \<open>tags_v2 (section_vars_v2 (''["disk1"]'', [''name="disk1"'', ''temp="38"'', ''rotational="1"'']))
     = ''disk_name:disk1,disk_id:,disk_type:,device:,transport:,drive_kind:hdd'' \<and>
   tags_v2 (section_vars_v2 (''["cache"]'', [''name="cache"'', ''temp="41"'', ''rotational="0"'']))
     = ''disk_name:cache,disk_id:,disk_type:,device:,transport:,drive_kind:ssd'' \<and>
   tags_v2 (section_vars_v2 (''["disk3"]'', [''name="disk3"'', ''temp="35"'', ''rotational="2"'']))
     = ''disk_name:disk3,disk_id:,disk_type:,device:,transport:'' \<and>
   tags_v2 (section_vars_v2 (''["disk4"]'', [''name="disk4"'', ''temp="35"'']))
     = ''disk_name:disk4,disk_id:,disk_type:,device:,transport:'' \<and>
   sent (process_metric_v2
          (section_vars_v2 (''["disk1"]'', [''name="disk1"'', ''temp="38"'', ''rotational="1"''])) out_nil)
     = [''unraid.disk.temperature:38|g|#disk_name:disk1,disk_id:,disk_type:,device:,transport:,drive_kind:hdd'']\<close>
proof -
  let ?a = \<open>section_vars_v2 (''["disk1"]'', [''name="disk1"'', ''temp="38"'', ''rotational="1"''])\<close>
  let ?b = \<open>section_vars_v2 (''["cache"]'', [''name="cache"'', ''temp="41"'', ''rotational="0"''])\<close>
  let ?c = \<open>section_vars_v2 (''["disk3"]'', [''name="disk3"'', ''temp="35"'', ''rotational="2"''])\<close>
  let ?d = \<open>section_vars_v2 (''["disk4"]'', [''name="disk4"'', ''temp="35"''])\<close>
  have ra: "current_rotational ?a = ''1''" "valid_v2 ?a" "current_temp ?a = ''38''"
    "base_tags_v2 ?a = ''disk_name:disk1,disk_id:,disk_type:,device:,transport:''" by code_simp+
  have rb: "current_rotational ?b = ''0''"
    "base_tags_v2 ?b = ''disk_name:cache,disk_id:,disk_type:,device:,transport:''" by code_simp+
  have rc: "current_rotational ?c = ''2''"
    "base_tags_v2 ?c = ''disk_name:disk3,disk_id:,disk_type:,device:,transport:''" by code_simp+
  have rd: "current_rotational ?d = []"
    "base_tags_v2 ?d = ''disk_name:disk4,disk_id:,disk_type:,device:,transport:''" by code_simp+
  show ?thesis
    using drive_kind_tag_iff_rotational [of ?a out_nil] drive_kind_tag_iff_rotational [of ?b out_nil]
          drive_kind_tag_iff_rotational [of ?c out_nil] drive_kind_tag_iff_rotational [of ?d out_nil]
          ra rb rc rd
    by (simp add: out_nil_def METRIC_PREFIX_def)
qed

subsection \<open>C4: the payload\<close>

lemma metric_v2_text:
  "metric_v2 v =
   METRIC_PREFIX @ ''.temperature:'' @ current_temp v @ ''|g|#disk_name:'' @ current_name v @
   '',disk_id:'' @ sanitized_id v @ '',disk_type:'' @ type_tag v @ '',device:'' @
   current_device v @ '',transport:'' @ current_transport v @
   (if current_rotational v = ''1'' then '',drive_kind:hdd''
    else if current_rotational v = ''0'' then '',drive_kind:ssd'' else [])"
  by (simp add: metric_v2_def tags_v2_def base_tags_v2_def drive_kind_def)

lemma metric_v1_text:
  "metric_v1 u =
   METRIC_PREFIX @ ''.temperature:'' @ current_temp u @ ''|g|#disk_slot:'' @ current_slot u @
   '',disk_id:'' @ current_id u @ '',disk_type:'' @ type_tag u"
  by (simp add: metric_v1_def tags_v1_def)

text \<open>
  What a run sends is the metrics of the valid ones among the records handed to
  \<^verbatim>\<open>process_metric\<close>, in their order.
\<close>

lemma sent_flushed_v2:
  "sent (process_metric_v2 (fst (main_loop_v2 ls (v, out))) (snd (main_loop_v2 ls (v, out))))
   = sent out @ map metric_v2 (filter valid_v2 (flushed_v2 ls v))"
proof (induction ls arbitrary: v out)
  case Nil
  show ?case by (simp add: sent_process_metric_v2)
next
  case (Cons l ls)
  show ?case
  proof (cases "is_header_line l")
    case True
    show ?thesis
      using Cons.IH [of reset_v2 "process_metric_v2 v out"] True
      by (simp add: loop_body_v2_header sent_process_metric_v2)
  next
    case False
    obtain w where w: "loop_body_v2 l (v, out) = (w, out)"
      using loop_body_v2_other(1) [OF False, of v out] by (cases "loop_body_v2 l (v, out)") simp
    have w': "fst (loop_body_v2 l (v, out_nil)) = w"
      using loop_body_v2_other(2) [OF False, of v out_nil out] w by simp
    show ?thesis using Cons.IH [of w out] False by (simp add: w w')
  qed
qed

lemma sent_flushed_v1:
  "sent (process_metric_v1 (fst (main_loop_v1 ls (v, out))) (snd (main_loop_v1 ls (v, out))))
   = sent out @ map metric_v1 (filter valid_v1 (flushed_v1 ls v))"
proof (induction ls arbitrary: v out)
  case Nil
  show ?case by (simp add: sent_process_metric_v1)
next
  case (Cons l ls)
  show ?case
  proof (cases "is_header_line l")
    case True
    show ?thesis
      using Cons.IH [of "reset_v1 (sed_trim (echo l))" "process_metric_v1 v out"] True
      by (simp add: loop_body_v1_header sent_process_metric_v1)
  next
    case False
    obtain w where w: "loop_body_v1 l (v, out) = (w, out)"
      using loop_body_v1_other(1) [OF False, of v out] by (cases "loop_body_v1 l (v, out)") simp
    have w': "fst (loop_body_v1 l (v, out_nil)) = w"
      using loop_body_v1_other(2) [OF False, of v out_nil out] w by simp
    show ?thesis using Cons.IH [of w out] False by (simp add: w w')
  qed
qed

lemma read_from_one_line:
  "CHR 0x0A \<notin> set acc \<Longrightarrow> l \<in> set (read_from acc cs) \<Longrightarrow> CHR 0x0A \<notin> set l"
proof (induction cs arbitrary: acc)
  case Nil
  then show ?case by simp
next
  case (Cons c cs)
  show ?case
  proof (cases "c = CHR 0x0A")
    case True
    with Cons.prems have "l = acc \<or> l \<in> set (read_from [] cs)" by simp
    then show ?thesis using Cons.prems(1) Cons.IH [of "[]"] by auto
  next
    case False
    show ?thesis
    proof (cases "c = CHR 0x00")
      case True
      with Cons.prems have "l \<in> set (read_from acc cs)" by simp
      then show ?thesis using Cons.IH [OF Cons.prems(1)] by simp
    next
      case z: False
      with False Cons.prems have "l \<in> set (read_from (acc @ [c]) cs)" by simp
      moreover from False Cons.prems(1) have "CHR 0x0A \<notin> set (acc @ [c])" by simp
      ultimately show ?thesis using Cons.IH by blast
    qed
  qed
qed

lemma read_lines_one_line: "list_all (\<lambda>l. CHR 0x0A \<notin> set l) (read_lines content)"
  using read_from_one_line [of "[]" _ content] by (auto simp add: list_all_iff read_lines_def)

lemma set_echo: "set (echo s) \<subseteq> set s"
  by (simp add: echo_def)

lemma set_sed_trim: "set (sed_trim s) \<subseteq> set s"
proof -
  have "set (rev (dropWhile is_space (rev (dropWhile is_space s)))) \<subseteq> set (dropWhile is_space s)"
    using set_dropWhileD [of _ is_space "rev (dropWhile is_space s)"] by auto
  also have "\<dots> \<subseteq> set s" using set_dropWhileD [of _ is_space s] by auto
  finally show ?thesis by (simp add: sed_trim_def strip_trailing_def strip_leading_def)
qed

lemma set_tr_d: "set (tr_d cs s) \<subseteq> set s"
  by (auto simp add: tr_d_def)

lemma set_cut_f2_to_end: "set (cut_f2_to_end s) \<subseteq> set s"
proof -
  have "set (drop 1 (dropWhile (\<lambda>c. c \<noteq> CHR ''='') s)) \<subseteq> set (dropWhile (\<lambda>c. c \<noteq> CHR ''='') s)"
    by (rule set_drop_subset)
  also have "\<dots> \<subseteq> set s" using set_dropWhileD [of _ "\<lambda>c. c \<noteq> CHR ''=''" s] by auto
  finally show ?thesis by (simp add: cut_f2_to_end_def)
qed

lemma set_cut_f2: "set (cut_f2 s) \<subseteq> set s"
proof -
  have "set (takeWhile (\<lambda>c. c \<noteq> CHR ''='') (cut_f2_to_end s)) \<subseteq> set (cut_f2_to_end s)"
    using set_takeWhileD [of _ "\<lambda>c. c \<noteq> CHR ''=''" "cut_f2_to_end s"] by auto
  then show ?thesis using set_cut_f2_to_end [of s] by (auto simp add: cut_f2_def)
qed

text \<open>What the loop cuts out of a line that has no newline has none.\<close>

lemma clean_one_line: "CHR 0x0A \<notin> set l \<Longrightarrow> CHR 0x0A \<notin> set (echo (sed_trim (echo l)))"
  using set_echo [of "sed_trim (echo l)"] set_sed_trim [of "echo l"] set_echo [of l] by blast

lemma value_one_line_v2:
  "CHR 0x0A \<notin> set l \<Longrightarrow> CHR 0x0A \<notin> set (tr_d cs (cut_f2_to_end (echo (sed_trim (echo l)))))"
  using clean_one_line [of l] set_tr_d [of cs "cut_f2_to_end (echo (sed_trim (echo l)))"]
    set_cut_f2_to_end [of "echo (sed_trim (echo l))"] by blast

lemma value_one_line_v1:
  "CHR 0x0A \<notin> set l \<Longrightarrow> CHR 0x0A \<notin> set (tr_d cs (cut_f2 (echo (sed_trim (echo l)))))"
  using clean_one_line [of l] set_tr_d [of cs "cut_f2 (echo (sed_trim (echo l)))"]
    set_cut_f2 [of "echo (sed_trim (echo l))"] by blast

lemma slot_one_line:
  "CHR 0x0A \<notin> set l \<Longrightarrow> CHR 0x0A \<notin> set (tr_d cs (echo (sed_trim (echo l))))"
  using clean_one_line [of l] set_tr_d [of cs "echo (sed_trim (echo l))"] by blast

lemma loop_body_v2_one_line:
  "CHR 0x0A \<notin> set l \<Longrightarrow> one_line_v2 v \<Longrightarrow> one_line_v2 (fst (loop_body_v2 l (v, out)))"
  using value_one_line_v2 [of l "[CHR 0x22]"]
  by (simp add: loop_body_v2_def Let_def one_line_v2_def reset_v2_def assign_v2_def)

lemma loop_body_v1_one_line:
  "CHR 0x0A \<notin> set l \<Longrightarrow> one_line_v1 v \<Longrightarrow> one_line_v1 (fst (loop_body_v1 l (v, out)))"
  using value_one_line_v1 [of l "[CHR 0x22]"] slot_one_line [of l "''[]'' @ [CHR 0x22]"]
  by (simp add: loop_body_v1_def Let_def one_line_v1_def reset_v1_def)

lemma flushed_v2_one_line:
  "list_all (\<lambda>l. CHR 0x0A \<notin> set l) ls \<Longrightarrow> one_line_v2 v \<Longrightarrow> w \<in> set (flushed_v2 ls v) \<Longrightarrow>
   one_line_v2 w"
proof (induction ls arbitrary: v)
  case Nil
  then show ?case by simp
next
  case (Cons l ls)
  from Cons.prems(1) have l: "CHR 0x0A \<notin> set l" and rest: "list_all (\<lambda>l. CHR 0x0A \<notin> set l) ls"
    by simp_all
  have r: "one_line_v2 reset_v2" by (simp add: one_line_v2_def reset_v2_def)
  show ?case
  proof (cases "is_header_line l")
    case True
    with Cons.prems(3) have "w = v \<or> w \<in> set (flushed_v2 ls reset_v2)" by simp
    then show ?thesis using Cons.prems(2) Cons.IH [OF rest r] by blast
  next
    case False
    with Cons.prems(3) have "w \<in> set (flushed_v2 ls (fst (loop_body_v2 l (v, out_nil))))" by simp
    then show ?thesis
      using Cons.IH [OF rest loop_body_v2_one_line [OF l Cons.prems(2)]] by blast
  qed
qed

lemma flushed_v1_one_line:
  "list_all (\<lambda>l. CHR 0x0A \<notin> set l) ls \<Longrightarrow> one_line_v1 v \<Longrightarrow> w \<in> set (flushed_v1 ls v) \<Longrightarrow>
   one_line_v1 w"
proof (induction ls arbitrary: v)
  case Nil
  then show ?case by simp
next
  case (Cons l ls)
  from Cons.prems(1) have l: "CHR 0x0A \<notin> set l" and rest: "list_all (\<lambda>l. CHR 0x0A \<notin> set l) ls"
    by simp_all
  show ?case
  proof (cases "is_header_line l")
    case True
    have r: "one_line_v1 (reset_v1 (sed_trim (echo l)))"
      using slot_one_line [OF l, of "''[]'' @ [CHR 0x22]"] by (simp add: one_line_v1_def reset_v1_def)
    from True Cons.prems(3) have "w = v \<or> w \<in> set (flushed_v1 ls (reset_v1 (sed_trim (echo l))))"
      by simp
    then show ?thesis using Cons.prems(2) Cons.IH [OF rest r] by blast
  next
    case False
    with Cons.prems(3) have "w \<in> set (flushed_v1 ls (fst (loop_body_v1 l (v, out_nil))))" by simp
    then show ?thesis
      using Cons.IH [OF rest loop_body_v1_one_line [OF l Cons.prems(2)]] by blast
  qed
qed

lemma to_lower_newline: "to_lower c = CHR 0x0A \<Longrightarrow> c = CHR 0x0A"
proof (cases "is_upper c")
  case True
  then have "of_char (to_lower c) = (of_char c + 32 :: nat)"
    by (simp add: to_lower_def is_upper_def)
  moreover assume "to_lower c = CHR 0x0A"
  ultimately have "(of_char c + 32 :: nat) = 10" by simp
  then show ?thesis by simp
next
  case False
  moreover assume "to_lower c = CHR 0x0A"
  ultimately show ?thesis by (simp add: to_lower_def)
qed

lemma tr_lower_one_line:
  assumes "CHR 0x0A \<notin> set s"
  shows "CHR 0x0A \<notin> set (tr_lower (echo s))"
proof
  assume "CHR 0x0A \<in> set (tr_lower (echo s))"
  then obtain x where x: "x \<in> set (echo s)" "to_lower x = CHR 0x0A"
    by (auto simp add: tr_lower_def)
  from x(2) have "x = CHR 0x0A" by (rule to_lower_newline)
  with x(1) set_echo [of s] assms show False by blast
qed

lemma metric_v2_one_line: "one_line_v2 w \<Longrightarrow> CHR 0x0A \<notin> set (metric_v2 w)"
  using tr_lower_one_line [of "current_id w"] tr_lower_one_line [of "current_type w"]
  by (simp add: one_line_v2_def metric_v2_def tags_v2_def base_tags_v2_def drive_kind_def
        sanitized_id_def type_tag_def METRIC_PREFIX_def)

lemma metric_v1_one_line: "one_line_v1 w \<Longrightarrow> CHR 0x0A \<notin> set (metric_v1 w)"
  using tr_lower_one_line [of "current_type w"]
  by (simp add: one_line_v1_def metric_v1_def tags_v1_def type_tag_def METRIC_PREFIX_def)

lemma sent_main_v2_flushed:
  "sent (snd (main_v2 (Some content)))
   = map metric_v2 (filter valid_v2 (flushed_v2 (read_lines content) reset_v2))"
  using sent_flushed_v2 [of "read_lines content" reset_v2 out_nil]
  by (simp add: sent_main_v2 out_nil_def)

lemma sent_main_v1_flushed:
  "sent (snd (main_v1 (Some content)))
   = map metric_v1 (filter valid_v1 (flushed_v1 (read_lines content) init_v1))"
  using sent_flushed_v1 [of "read_lines content" init_v1 out_nil]
  by (simp add: sent_main_v1 out_nil_def)

lemma sent_main_v2_one_line:
  assumes "m \<in> set (sent (snd (main_v2 (Some content))))"
  shows "CHR 0x0A \<notin> set m"
proof -
  from assms obtain w where w: "w \<in> set (flushed_v2 (read_lines content) reset_v2)" "m = metric_v2 w"
    by (auto simp add: sent_main_v2_flushed)
  have "one_line_v2 reset_v2" by (simp add: one_line_v2_def reset_v2_def)
  from flushed_v2_one_line [OF read_lines_one_line this w(1)] have "one_line_v2 w" .
  then show ?thesis unfolding w(2) by (rule metric_v2_one_line)
qed

lemma sent_main_v1_one_line:
  assumes "m \<in> set (sent (snd (main_v1 (Some content))))"
  shows "CHR 0x0A \<notin> set m"
proof -
  from assms obtain w where w: "w \<in> set (flushed_v1 (read_lines content) init_v1)" "m = metric_v1 w"
    by (auto simp add: sent_main_v1_flushed)
  have "one_line_v1 init_v1" by (simp add: one_line_v1_def init_v1_def)
  from flushed_v1_one_line [OF read_lines_one_line this w(1)] have "one_line_v1 w" .
  then show ?thesis unfolding w(2) by (rule metric_v1_one_line)
qed

text \<open>
  C4 as the specification has it fails on the slot script, whose payload has the tags
  \<^verbatim>\<open>disk_slot\<close>, \<^verbatim>\<open>disk_id\<close> and \<^verbatim>\<open>disk_type\<close> only: it is not the prefix, a number and
  \<^verbatim>\<open>|g|#disk_name:\<close> followed by anything.
\<close>

theorem slot_payload_counterexample:
  \<open>sent (snd (main_v1 (Some ''["disk1"]\<newline>id="WD-1"\<newline>temp="38"\<newline>type="Data"\<newline>'')))
     = [''unraid.disk.temperature:38|g|#disk_slot:disk1,disk_id:WD-1,disk_type:data''] \<and>
   \<not> (\<exists>t rest. is_numeric t \<and>
        ''unraid.disk.temperature:38|g|#disk_slot:disk1,disk_id:WD-1,disk_type:data''
        = METRIC_PREFIX @ ''.temperature:'' @ t @ ''|g|#disk_name:'' @ rest)\<close>
proof -
  have a: \<open>sent (snd (main_v1 (Some ''["disk1"]\<newline>id="WD-1"\<newline>temp="38"\<newline>type="Data"\<newline>'')))
     = [''unraid.disk.temperature:38|g|#disk_slot:disk1,disk_id:WD-1,disk_type:data'']\<close>
    by code_simp
  have b: "\<not> (is_numeric t \<and>
        ''unraid.disk.temperature:38|g|#disk_slot:disk1,disk_id:WD-1,disk_type:data''
        = METRIC_PREFIX @ ''.temperature:'' @ t @ ''|g|#disk_name:'' @ rest)" for t rest
  proof (cases t)
    case Nil
    then show ?thesis by (simp add: METRIC_PREFIX_def)
  next
    case (Cons a t1)
    show ?thesis
    proof (cases t1)
      case Nil
      with Cons show ?thesis by (simp add: METRIC_PREFIX_def)
    next
      case (Cons b t2)
      show ?thesis
      proof (cases t2)
        case Nil
        with \<open>t = a # t1\<close> \<open>t1 = b # t2\<close> show ?thesis by (simp add: METRIC_PREFIX_def)
      next
        case (Cons c t3)
        with \<open>t = a # t1\<close> \<open>t1 = b # t2\<close> show ?thesis
          by (auto simp add: METRIC_PREFIX_def is_numeric_def is_digit_def)
      qed
    qed
  qed
  show ?thesis using a b by blast
qed

text \<open>
  C4, amended: for every record that passes the validity test the multi-field script
  sends one datagram, and it is exactly the prefix, \<^verbatim>\<open>.temperature:\<close>, the all-digit
  temperature, \<^verbatim>\<open>|g|#\<close> and the tags \<^verbatim>\<open>disk_name\<close>, \<^verbatim>\<open>disk_id\<close>, \<^verbatim>\<open>disk_type\<close>,
  \<^verbatim>\<open>device\<close>, \<^verbatim>\<open>transport\<close> of that record joined by commas, then \<^verbatim>\<open>,drive_kind:hdd\<close>,
  \<^verbatim>\<open>,drive_kind:ssd\<close> or nothing, and nothing after. The slot script sends exactly the
  same head and the tags \<^verbatim>\<open>disk_slot\<close>, \<^verbatim>\<open>disk_id\<close>, \<^verbatim>\<open>disk_type\<close>. The datagrams of a
  run are these payloads of the valid records among those handed to \<^verbatim>\<open>process_metric\<close>,
  in order, and none of them holds a newline, at its end or elsewhere.
\<close>

theorem payload_format:
  "metric_v2 v =
     METRIC_PREFIX @ ''.temperature:'' @ current_temp v @ ''|g|#disk_name:'' @ current_name v @
     '',disk_id:'' @ sanitized_id v @ '',disk_type:'' @ type_tag v @ '',device:'' @
     current_device v @ '',transport:'' @ current_transport v @
     (if current_rotational v = ''1'' then '',drive_kind:hdd''
      else if current_rotational v = ''0'' then '',drive_kind:ssd'' else []) \<and>
   metric_v1 u =
     METRIC_PREFIX @ ''.temperature:'' @ current_temp u @ ''|g|#disk_slot:'' @ current_slot u @
     '',disk_id:'' @ current_id u @ '',disk_type:'' @ type_tag u \<and>
   (valid_v2 v \<longrightarrow>
      is_numeric (current_temp v) \<and>
      sent (process_metric_v2 v out) = sent out @ [metric_v2 v]) \<and>
   (valid_v1 u \<longrightarrow>
      is_numeric (current_temp u) \<and>
      sent (process_metric_v1 u out) = sent out @ [metric_v1 u]) \<and>
   sent (snd (main_v2 (Some content))) =
     map metric_v2 (filter valid_v2 (flushed_v2 (read_lines content) reset_v2)) \<and>
   sent (snd (main_v1 (Some content))) =
     map metric_v1 (filter valid_v1 (flushed_v1 (read_lines content) init_v1)) \<and>
   (m \<in> set (sent (snd (main_v2 (Some content)))) \<longrightarrow> CHR 0x0A \<notin> set m) \<and>
   (m \<in> set (sent (snd (main_v1 (Some content)))) \<longrightarrow> CHR 0x0A \<notin> set m)"
proof -
  have a: "valid_v2 v \<longrightarrow>
      is_numeric (current_temp v) \<and>
      sent (process_metric_v2 v out) = sent out @ [metric_v2 v]"
    by (simp add: sent_process_metric_v2) (simp add: valid_v2_def)
  have b: "valid_v1 u \<longrightarrow>
      is_numeric (current_temp u) \<and>
      sent (process_metric_v1 u out) = sent out @ [metric_v1 u]"
    by (simp add: sent_process_metric_v1) (simp add: valid_v1_def)
  show ?thesis
    using metric_v2_text [of v] metric_v1_text [of u] a b
      sent_main_v2_flushed [of content] sent_main_v1_flushed [of content]
      sent_main_v2_one_line [of m content] sent_main_v1_one_line [of m content]
    by blast
qed

theorem payload_format_witness:
  \<open>valid_v2 (section_vars_v2 (''["disk1"]'',
      [''name="disk1"'', ''id="WD-1"'', ''temp="38"'', ''type="Data"'', ''device="sdb"'',
       ''transport="sata"'', ''rotational="1"''])) \<and>
   sent (process_metric_v2 (section_vars_v2 (''["disk1"]'',
      [''name="disk1"'', ''id="WD-1"'', ''temp="38"'', ''type="Data"'', ''device="sdb"'',
       ''transport="sata"'', ''rotational="1"''])) out_nil)
     = [''unraid.disk.temperature:38|g|#disk_name:disk1,disk_id:wd-1,disk_type:data,device:sdb,transport:sata,drive_kind:hdd''] \<and>
   valid_v1 (section_vars_v1 (''["disk1"]'', [''id="WD-1"'', ''temp="38"'', ''type="Data"''])) \<and>
   sent (process_metric_v1 (section_vars_v1 (''["disk1"]'',
      [''id="WD-1"'', ''temp="38"'', ''type="Data"''])) out_nil)
     = [''unraid.disk.temperature:38|g|#disk_slot:disk1,disk_id:WD-1,disk_type:data''] \<and>
   ''unraid.disk.temperature:38|g|#disk_name:disk1,disk_id:wd-1,disk_type:data,device:sdb,transport:sata,drive_kind:hdd''
     \<in> set (sent (snd (main_v2 (Some
         ''["disk1"]\<newline>name="disk1"\<newline>id="WD-1"\<newline>temp="38"\<newline>type="Data"\<newline>device="sdb"\<newline>transport="sata"\<newline>rotational="1"\<newline>'')))) \<and>
   CHR 0x0A \<notin> set ''unraid.disk.temperature:38|g|#disk_name:disk1,disk_id:wd-1,disk_type:data,device:sdb,transport:sata,drive_kind:hdd'' \<and>
   ''unraid.disk.temperature:38|g|#disk_slot:disk1,disk_id:WD-1,disk_type:data''
     \<in> set (sent (snd (main_v1 (Some
         ''["disk1"]\<newline>name="disk1"\<newline>id="WD-1"\<newline>temp="38"\<newline>type="Data"\<newline>device="sdb"\<newline>transport="sata"\<newline>rotational="1"\<newline>'')))) \<and>
   CHR 0x0A \<notin> set ''unraid.disk.temperature:38|g|#disk_slot:disk1,disk_id:WD-1,disk_type:data''\<close>
proof -
  let ?c = \<open>''["disk1"]\<newline>name="disk1"\<newline>id="WD-1"\<newline>temp="38"\<newline>type="Data"\<newline>device="sdb"\<newline>transport="sata"\<newline>rotational="1"\<newline>''\<close>
  let ?v = \<open>section_vars_v2 (''["disk1"]'',
      [''name="disk1"'', ''id="WD-1"'', ''temp="38"'', ''type="Data"'', ''device="sdb"'',
       ''transport="sata"'', ''rotational="1"''])\<close>
  let ?u = \<open>section_vars_v1 (''["disk1"]'', [''id="WD-1"'', ''temp="38"'', ''type="Data"''])\<close>
  let ?m2 = "''unraid.disk.temperature:38|g|#disk_name:disk1,disk_id:wd-1,disk_type:data,device:sdb,transport:sata,drive_kind:hdd''"
  let ?m1 = "''unraid.disk.temperature:38|g|#disk_slot:disk1,disk_id:WD-1,disk_type:data''"
  have v: "valid_v2 ?v" "valid_v1 ?u" by code_simp+
  have e: "metric_v2 ?v = ?m2" "metric_v1 ?u = ?m1" by code_simp+
  have i2: "?m2 \<in> set (sent (snd (main_v2 (Some ?c))))" by code_simp
  have i1: "?m1 \<in> set (sent (snd (main_v1 (Some ?c))))" by code_simp
  have o: "sent out_nil = []" by (simp add: out_nil_def)
  note t2 = payload_format [where v = ?v and u = ?u and out = out_nil and content = ?c and m = ?m2]
  note t1 = payload_format [where v = ?v and u = ?u and out = out_nil and content = ?c and m = ?m1]
  from t2 v(1) have "sent (process_metric_v2 ?v out_nil) = sent out_nil @ [metric_v2 ?v]" by blast
  then have s2: "sent (process_metric_v2 ?v out_nil) = [?m2]" by (simp only: o e append_Nil)
  from t2 v(2) have "sent (process_metric_v1 ?u out_nil) = sent out_nil @ [metric_v1 ?u]" by blast
  then have s1: "sent (process_metric_v1 ?u out_nil) = [?m1]" by (simp only: o e append_Nil)
  from t2 i2 have n2: "CHR 0x0A \<notin> set ?m2" by blast
  from t1 i1 have n1: "CHR 0x0A \<notin> set ?m1" by blast
  show ?thesis
    by (intro conjI) (rule v s2 s1 i2 i1 n2 n1)+
qed

subsection \<open>C2: which tag values are canonical\<close>

text \<open>
  C2 as the specification has it fails: the name of a disk goes into its tag as the
  file has it, here with a capital letter, a comma and a colon.
\<close>

theorem raw_name_tag_counterexample:
  \<open>sent (snd (main_v2 (Some ''["disk1"]\<newline>name="My,Disk:1"\<newline>temp="38"\<newline>'')))
     = [''unraid.disk.temperature:38|g|#disk_name:'' @ ''My,Disk:1'' @
        '',disk_id:,disk_type:,device:,transport:''] \<and>
   current_name (section_vars_v2 (''["disk1"]'', [''name="My,Disk:1"'', ''temp="38"'']))
     = ''My,Disk:1'' \<and>
   list_ex is_upper ''My,Disk:1'' \<and> CHR '','' \<in> set ''My,Disk:1'' \<and> CHR '':'' \<in> set ''My,Disk:1''\<close>
  by code_simp

text \<open>
  C2, amended: the values of the tag \<^verbatim>\<open>disk_type\<close> (both scripts) and of the tag
  \<^verbatim>\<open>disk_id\<close> (multi-field script) have no capital letter A-Z, and the drive kind is
  \<^verbatim>\<open>hdd\<close>, \<^verbatim>\<open>ssd\<close> or absent. The other values stand in the payload as the variables
  hold them: name, device and transport in the multi-field script; slot and id in the
  slot script.
\<close>

theorem canonical_tag_values:
  "list_all (\<lambda>c. \<not> is_upper c) (type_tag v) \<and>
   list_all (\<lambda>c. \<not> is_upper c) (sanitized_id w) \<and>
   (drive_kind w = ''hdd'' \<or> drive_kind w = ''ssd'' \<or> drive_kind w = []) \<and>
   metric_v2 w =
     METRIC_PREFIX @ ''.temperature:'' @ current_temp w @ ''|g|#disk_name:'' @ current_name w @
     '',disk_id:'' @ sanitized_id w @ '',disk_type:'' @ type_tag w @ '',device:'' @
     current_device w @ '',transport:'' @ current_transport w @
     (if drive_kind w = [] then [] else '',drive_kind:'' @ drive_kind w) \<and>
   metric_v1 u =
     METRIC_PREFIX @ ''.temperature:'' @ current_temp u @ ''|g|#disk_slot:'' @ current_slot u @
     '',disk_id:'' @ current_id u @ '',disk_type:'' @ type_tag u"
proof -
  have a: "list_all (\<lambda>c. \<not> is_upper c) (type_tag v)"
    by (simp add: type_tag_def tr_lower_no_upper)
  have b: "list_all (\<lambda>c. \<not> is_upper c) (sanitized_id w)"
    by (simp add: sanitized_id_def tr_lower_no_upper)
  have c: "drive_kind w = ''hdd'' \<or> drive_kind w = ''ssd'' \<or> drive_kind w = []"
    by (simp add: drive_kind_def)
  have d: "metric_v2 w =
     METRIC_PREFIX @ ''.temperature:'' @ current_temp w @ ''|g|#disk_name:'' @ current_name w @
     '',disk_id:'' @ sanitized_id w @ '',disk_type:'' @ type_tag w @ '',device:'' @
     current_device w @ '',transport:'' @ current_transport w @
     (if drive_kind w = [] then [] else '',drive_kind:'' @ drive_kind w)"
    by (simp add: metric_v2_def tags_v2_def base_tags_v2_def)
  show ?thesis using a b c d metric_v1_text [of u] by simp
qed

subsection \<open>C1: the record in progress at end of input\<close>

lemma single_section_v2:
  assumes "read_lines content = section_lines sec" "good_section_v2 sec"
  shows "sent (snd (main_v2 (Some content))) = [metric_v2 (section_vars_v2 sec)]"
proof -
  have "list_all good_section_v2 [sec]" using assms(2) by simp
  from flush_sections_v2 [OF this, of reset_v2 out_nil] show ?thesis
    by (simp add: sent_main_v2 assms(1) not_valid_reset_v2 out_nil_def)
qed

lemma single_section_v1:
  assumes "read_lines content = section_lines sec" "good_section_v1 sec"
  shows "sent (snd (main_v1 (Some content))) = [metric_v1 (section_vars_v1 sec)]"
proof -
  have "list_all good_section_v1 [sec]" using assms(2) by simp
  from flush_sections_v1 [OF this, of init_v1 out_nil] show ?thesis
    by (simp add: sent_main_v1 assms(1) not_valid_init_v1 out_nil_def)
qed

text \<open>
  For the lines that the loop is given: a header line after any lines does to the
  output exactly what the call at end of input does, so a run sends and counts what
  the loop alone would on these lines followed by one more header. When the lines are
  one section with a valid identifier and an all-digit temperature, the run sends
  exactly one metric, that of the section.
\<close>

lemma end_of_input_call:
  "is_header_line h \<Longrightarrow>
   snd (main_loop_v2 (ls @ [h]) s2) =
     process_metric_v2 (fst (main_loop_v2 ls s2)) (snd (main_loop_v2 ls s2)) \<and>
   sent (snd (main_v2 (Some content))) =
     sent (snd (main_loop_v2 (read_lines content @ [h]) (reset_v2, out_nil))) \<and>
   disk_count (snd (main_v2 (Some content))) =
     disk_count (snd (main_loop_v2 (read_lines content @ [h]) (reset_v2, out_nil))) \<and>
   (read_lines content = section_lines sec \<and> good_section_v2 sec \<longrightarrow>
      sent (snd (main_v2 (Some content))) = [metric_v2 (section_vars_v2 sec)]) \<and>
   snd (main_loop_v1 (ls @ [h]) s1) =
     process_metric_v1 (fst (main_loop_v1 ls s1)) (snd (main_loop_v1 ls s1)) \<and>
   sent (snd (main_v1 (Some content))) =
     sent (snd (main_loop_v1 (read_lines content @ [h]) (init_v1, out_nil))) \<and>
   disk_count (snd (main_v1 (Some content))) =
     disk_count (snd (main_loop_v1 (read_lines content @ [h]) (init_v1, out_nil))) \<and>
   (read_lines content = section_lines sec \<and> good_section_v1 sec \<longrightarrow>
      sent (snd (main_v1 (Some content))) = [metric_v1 (section_vars_v1 sec)])"
proof -
  assume h: "is_header_line h"
  have a2: "snd (main_loop_v2 (ls @ [h]) s2) =
     process_metric_v2 (fst (main_loop_v2 ls s2)) (snd (main_loop_v2 ls s2))"
    by (rule header_flushes_v2 [OF h])
  have b2: "sent (snd (main_v2 (Some content))) =
     sent (snd (main_loop_v2 (read_lines content @ [h]) (reset_v2, out_nil)))"
    by (simp only: sent_main_v2 header_flushes_v2 [OF h])
  have c2: "disk_count (snd (main_v2 (Some content))) =
     disk_count (snd (main_loop_v2 (read_lines content @ [h]) (reset_v2, out_nil)))"
    by (simp only: disk_count_main_v2 header_flushes_v2 [OF h])
  have a1: "snd (main_loop_v1 (ls @ [h]) s1) =
     process_metric_v1 (fst (main_loop_v1 ls s1)) (snd (main_loop_v1 ls s1))"
    by (rule header_flushes_v1 [OF h])
  have b1: "sent (snd (main_v1 (Some content))) =
     sent (snd (main_loop_v1 (read_lines content @ [h]) (init_v1, out_nil)))"
    by (simp only: sent_main_v1 header_flushes_v1 [OF h])
  have c1: "disk_count (snd (main_v1 (Some content))) =
     disk_count (snd (main_loop_v1 (read_lines content @ [h]) (init_v1, out_nil)))"
    by (simp only: disk_count_main_v1 header_flushes_v1 [OF h])
  show ?thesis
    using a2 b2 c2 a1 b1 c1 single_section_v2 [of content sec] single_section_v1 [of content sec]
    by blast
qed

text \<open>
  C1 fails for a file whose last line does not end in a newline: that line is read but
  the loop body does not run for it, so what it holds is not in the variables when
  the call at end of input tests them. A single section whose last line is its
  temperature then sends nothing, in both scripts, where the claim has one metric; the
  same bytes followed by a newline send it.
\<close>

theorem unterminated_last_line_is_lost:
  \<open>sent (snd (main_v2 (Some ''["disk1"]\<newline>name="disk1"\<newline>temp="38"''))) = [] \<and>
   sent (snd (main_v1 (Some ''["disk1"]\<newline>name="disk1"\<newline>temp="38"''))) = [] \<and>
   sent (snd (main_v2 (Some ''["disk1"]\<newline>name="disk1"\<newline>temp="38"\<newline>'')))
     = [''unraid.disk.temperature:38|g|#disk_name:disk1,disk_id:,disk_type:,device:,transport:''] \<and>
   sent (snd (main_v1 (Some ''["disk1"]\<newline>name="disk1"\<newline>temp="38"\<newline>'')))
     = [''unraid.disk.temperature:38|g|#disk_slot:disk1,disk_id:,disk_type:'']\<close>
  by code_simp

subsection \<open>C6: one metric for each section, in the order of the file\<close>

text \<open>
  C6: when the lines of the file are N sections one after the other, each a header
  line and lines that give a non-empty identifier and an all-digit temperature, the
  run sends exactly the N metrics of these sections, in the order of the file, and
  counts N disks.
\<close>

theorem one_metric_per_section_in_order:
  "read_lines content = concat (map section_lines secs) \<Longrightarrow>
   (list_all good_section_v2 secs \<longrightarrow>
      sent (snd (main_v2 (Some content))) = map (\<lambda>sec. metric_v2 (section_vars_v2 sec)) secs \<and>
      length (sent (snd (main_v2 (Some content)))) = length secs \<and>
      disk_count (snd (main_v2 (Some content))) = length secs) \<and>
   (list_all good_section_v1 secs \<longrightarrow>
      sent (snd (main_v1 (Some content))) = map (\<lambda>sec. metric_v1 (section_vars_v1 sec)) secs \<and>
      length (sent (snd (main_v1 (Some content)))) = length secs \<and>
      disk_count (snd (main_v1 (Some content))) = length secs)"
proof -
  assume r: "read_lines content = concat (map section_lines secs)"
  have a: "sent (snd (main_v2 (Some content))) = map (\<lambda>sec. metric_v2 (section_vars_v2 sec)) secs"
    if g: "list_all good_section_v2 secs"
    using flush_sections_v2 [OF g, of reset_v2 out_nil]
    by (simp add: sent_main_v2 r not_valid_reset_v2 out_nil_def)
  have b: "disk_count (snd (main_v2 (Some content))) = length secs"
    if g: "list_all good_section_v2 secs"
    using count_sections_v2 [OF g, of reset_v2 out_nil]
    by (simp add: disk_count_main_v2 r not_valid_reset_v2 out_nil_def)
  have c: "sent (snd (main_v1 (Some content))) = map (\<lambda>sec. metric_v1 (section_vars_v1 sec)) secs"
    if g: "list_all good_section_v1 secs"
    using flush_sections_v1 [OF g, of init_v1 out_nil]
    by (simp add: sent_main_v1 r not_valid_init_v1 out_nil_def)
  have d: "disk_count (snd (main_v1 (Some content))) = length secs"
    if g: "list_all good_section_v1 secs"
    using count_sections_v1 [OF g, of init_v1 out_nil]
    by (simp add: disk_count_main_v1 r not_valid_init_v1 out_nil_def)
  show ?thesis using a b c d by simp
qed

theorem one_metric_per_section_in_order_witness:
  \<open>read_lines ''["disk1"]\<newline>name="disk1"\<newline>id="WD-1"\<newline>temp="38"\<newline>["disk2"]\<newline>name="disk2"\<newline>temp="41"\<newline>rotational="0"\<newline>["parity"]\<newline>name="parity"\<newline>temp="35"\<newline>type="Parity"\<newline>''
     = concat (map section_lines
         [(''["disk1"]'', [''name="disk1"'', ''id="WD-1"'', ''temp="38"'']),
          (''["disk2"]'', [''name="disk2"'', ''temp="41"'', ''rotational="0"'']),
          (''["parity"]'', [''name="parity"'', ''temp="35"'', ''type="Parity"''])]) \<and>
   list_all good_section_v2
         [(''["disk1"]'', [''name="disk1"'', ''id="WD-1"'', ''temp="38"'']),
          (''["disk2"]'', [''name="disk2"'', ''temp="41"'', ''rotational="0"'']),
          (''["parity"]'', [''name="parity"'', ''temp="35"'', ''type="Parity"''])] \<and>
   list_all good_section_v1
         [(''["disk1"]'', [''name="disk1"'', ''id="WD-1"'', ''temp="38"'']),
          (''["disk2"]'', [''name="disk2"'', ''temp="41"'', ''rotational="0"'']),
          (''["parity"]'', [''name="parity"'', ''temp="35"'', ''type="Parity"''])] \<and>
   sent (snd (main_v2 (Some ''["disk1"]\<newline>name="disk1"\<newline>id="WD-1"\<newline>temp="38"\<newline>["disk2"]\<newline>name="disk2"\<newline>temp="41"\<newline>rotational="0"\<newline>["parity"]\<newline>name="parity"\<newline>temp="35"\<newline>type="Parity"\<newline>'')))
     = [''unraid.disk.temperature:38|g|#disk_name:disk1,disk_id:wd-1,disk_type:,device:,transport:'',
        ''unraid.disk.temperature:41|g|#disk_name:disk2,disk_id:,disk_type:,device:,transport:,drive_kind:ssd'',
        ''unraid.disk.temperature:35|g|#disk_name:parity,disk_id:,disk_type:parity,device:,transport:''] \<and>
   disk_count (snd (main_v2 (Some ''["disk1"]\<newline>name="disk1"\<newline>id="WD-1"\<newline>temp="38"\<newline>["disk2"]\<newline>name="disk2"\<newline>temp="41"\<newline>rotational="0"\<newline>["parity"]\<newline>name="parity"\<newline>temp="35"\<newline>type="Parity"\<newline>''))) = 3 \<and>
   sent (snd (main_v1 (Some ''["disk1"]\<newline>name="disk1"\<newline>id="WD-1"\<newline>temp="38"\<newline>["disk2"]\<newline>name="disk2"\<newline>temp="41"\<newline>rotational="0"\<newline>["parity"]\<newline>name="parity"\<newline>temp="35"\<newline>type="Parity"\<newline>'')))
     = [''unraid.disk.temperature:38|g|#disk_slot:disk1,disk_id:WD-1,disk_type:'',
        ''unraid.disk.temperature:41|g|#disk_slot:disk2,disk_id:,disk_type:'',
        ''unraid.disk.temperature:35|g|#disk_slot:parity,disk_id:,disk_type:parity''] \<and>
   disk_count (snd (main_v1 (Some ''["disk1"]\<newline>name="disk1"\<newline>id="WD-1"\<newline>temp="38"\<newline>["disk2"]\<newline>name="disk2"\<newline>temp="41"\<newline>rotational="0"\<newline>["parity"]\<newline>name="parity"\<newline>temp="35"\<newline>type="Parity"\<newline>''))) = 3\<close>
proof -
  let ?c = \<open>''["disk1"]\<newline>name="disk1"\<newline>id="WD-1"\<newline>temp="38"\<newline>["disk2"]\<newline>name="disk2"\<newline>temp="41"\<newline>rotational="0"\<newline>["parity"]\<newline>name="parity"\<newline>temp="35"\<newline>type="Parity"\<newline>''\<close>
  let ?secs = \<open>[(''["disk1"]'', [''name="disk1"'', ''id="WD-1"'', ''temp="38"'']),
          (''["disk2"]'', [''name="disk2"'', ''temp="41"'', ''rotational="0"'']),
          (''["parity"]'', [''name="parity"'', ''temp="35"'', ''type="Parity"''])]\<close>
  have r: "read_lines ?c = concat (map section_lines ?secs)" by code_simp
  have g: "list_all good_section_v2 ?secs" "list_all good_section_v1 ?secs" by code_simp+
  have m2: "map (\<lambda>sec. metric_v2 (section_vars_v2 sec)) ?secs
     = [''unraid.disk.temperature:38|g|#disk_name:disk1,disk_id:wd-1,disk_type:,device:,transport:'',
        ''unraid.disk.temperature:41|g|#disk_name:disk2,disk_id:,disk_type:,device:,transport:,drive_kind:ssd'',
        ''unraid.disk.temperature:35|g|#disk_name:parity,disk_id:,disk_type:parity,device:,transport:'']"
    by code_simp
  have m1: "map (\<lambda>sec. metric_v1 (section_vars_v1 sec)) ?secs
     = [''unraid.disk.temperature:38|g|#disk_slot:disk1,disk_id:WD-1,disk_type:'',
        ''unraid.disk.temperature:41|g|#disk_slot:disk2,disk_id:,disk_type:'',
        ''unraid.disk.temperature:35|g|#disk_slot:parity,disk_id:,disk_type:parity'']"
    by code_simp
  have l: "length ?secs = 3" by simp
  note t = one_metric_per_section_in_order [OF r]
  from t g(1) have a2: "sent (snd (main_v2 (Some ?c))) = map (\<lambda>sec. metric_v2 (section_vars_v2 sec)) ?secs"
    and b2: "disk_count (snd (main_v2 (Some ?c))) = length ?secs"
    by blast+
  from t g(2) have a1: "sent (snd (main_v1 (Some ?c))) = map (\<lambda>sec. metric_v1 (section_vars_v1 sec)) ?secs"
    and b1: "disk_count (snd (main_v1 (Some ?c))) = length ?secs"
    by blast+
  have s2: "sent (snd (main_v2 (Some ?c)))
     = [''unraid.disk.temperature:38|g|#disk_name:disk1,disk_id:wd-1,disk_type:,device:,transport:'',
        ''unraid.disk.temperature:41|g|#disk_name:disk2,disk_id:,disk_type:,device:,transport:,drive_kind:ssd'',
        ''unraid.disk.temperature:35|g|#disk_name:parity,disk_id:,disk_type:parity,device:,transport:'']"
    using a2 m2 by (rule trans)
  have s1: "sent (snd (main_v1 (Some ?c)))
     = [''unraid.disk.temperature:38|g|#disk_slot:disk1,disk_id:WD-1,disk_type:'',
        ''unraid.disk.temperature:41|g|#disk_slot:disk2,disk_id:,disk_type:'',
        ''unraid.disk.temperature:35|g|#disk_slot:parity,disk_id:,disk_type:parity'']"
    using a1 m1 by (rule trans)
  have d2: "disk_count (snd (main_v2 (Some ?c))) = 3" using b2 l by (rule trans)
  have d1: "disk_count (snd (main_v1 (Some ?c))) = 3" using b1 l by (rule trans)
  show ?thesis
    by (intro conjI) (rule r g s2 d2 s1 d1)+
qed

subsection \<open>C7: a file with no header line\<close>

lemma loop_body_v1_slot:
  "\<not> is_header_line l \<Longrightarrow> current_slot (fst (loop_body_v1 l (v, out))) = current_slot v"
  by (simp add: loop_body_v1_def is_header_line_def Let_def)

lemma main_loop_v1_slot:
  "no_header ls \<Longrightarrow> current_slot (fst (main_loop_v1 ls (v, out))) = current_slot v"
proof (induction ls arbitrary: v)
  case Nil
  show ?case by simp
next
  case (Cons l ls)
  from Cons.prems have nh: "\<not> is_header_line l" and rest: "no_header ls"
    by (simp_all add: no_header_def)
  obtain w where w: "loop_body_v1 l (v, out) = (w, out)"
    using loop_body_v1_other(1) [OF nh, of v out] by (cases "loop_body_v1 l (v, out)") simp
  have "current_slot w = current_slot v"
    using loop_body_v1_slot [OF nh, of v out] by (simp add: w)
  then show ?case using Cons.IH [OF rest, of w] by (simp add: w)
qed

text \<open>
  C7 as the specification has it fails on the multi-field script: with no header line
  in the file the call at end of input still tests what the lines gave, and sends a
  metric.
\<close>

theorem headerless_file_counterexample:
  \<open>no_header (read_lines ''name="disk1"\<newline>temp="38"\<newline>'') \<and>
   sent (snd (main_v2 (Some ''name="disk1"\<newline>temp="38"\<newline>'')))
     = [''unraid.disk.temperature:38|g|#disk_name:disk1,disk_id:,disk_type:,device:,transport:'']\<close>
  by code_simp

text \<open>
  C7, amended: for a file with no header line the slot script sends nothing, its slot
  being set by header lines only. The multi-field script sends the one metric of the
  variables its lines gave when these hold a name and an all-digit temperature, and
  nothing otherwise.
\<close>

theorem headerless_file:
  "no_header (read_lines content) \<Longrightarrow>
   sent (snd (main_v1 (Some content))) = [] \<and>
   sent (snd (main_v2 (Some content))) =
     (if valid_v2 (fst (main_loop_v2 (read_lines content) (reset_v2, out_nil)))
      then [metric_v2 (fst (main_loop_v2 (read_lines content) (reset_v2, out_nil)))]
      else [])"
proof -
  assume nh: "no_header (read_lines content)"
  let ?s1 = "main_loop_v1 (read_lines content) (init_v1, out_nil)"
  let ?s2 = "main_loop_v2 (read_lines content) (reset_v2, out_nil)"
  have "current_slot (fst ?s1) = []"
    using main_loop_v1_slot [OF nh, of init_v1 out_nil] by (simp add: init_v1_def)
  then have v: "\<not> valid_v1 (fst ?s1)" by (simp add: valid_v1_def)
  have o1: "snd ?s1 = out_nil"
    by (subst main_loop_v1_body [OF nh, of init_v1 out_nil out_nil]) simp
  have o2: "snd ?s2 = out_nil"
    by (subst main_loop_v2_body [OF nh, of reset_v2 out_nil out_nil]) simp
  have e: "sent out_nil = []" by (simp add: out_nil_def)
  have a: "sent (snd (main_v1 (Some content))) = []"
  proof -
    have "sent (snd (main_v1 (Some content))) = sent (process_metric_v1 (fst ?s1) (snd ?s1))"
      by (rule sent_main_v1)
    also have "\<dots> = sent (snd ?s1)" using v by (simp add: sent_process_metric_v1)
    also have "\<dots> = []" by (simp only: o1 e)
    finally show ?thesis .
  qed
  have b: "sent (snd (main_v2 (Some content))) =
     (if valid_v2 (fst ?s2) then [metric_v2 (fst ?s2)] else [])"
  proof -
    have "sent (snd (main_v2 (Some content))) = sent (process_metric_v2 (fst ?s2) (snd ?s2))"
      by (rule sent_main_v2)
    also have "\<dots> = sent (snd ?s2) @ (if valid_v2 (fst ?s2) then [metric_v2 (fst ?s2)] else [])"
      by (rule sent_process_metric_v2)
    also have "\<dots> = (if valid_v2 (fst ?s2) then [metric_v2 (fst ?s2)] else [])"
      by (simp only: o2 e append_Nil)
    finally show ?thesis .
  qed
  show ?thesis using a b by simp
qed

theorem headerless_file_witness:
  \<open>no_header (read_lines ''id="WD-1"\<newline>name="disk1"\<newline>temp="38"\<newline>type="Data"\<newline>'') \<and>
   sent (snd (main_v1 (Some ''id="WD-1"\<newline>name="disk1"\<newline>temp="38"\<newline>type="Data"\<newline>''))) = [] \<and>
   sent (snd (main_v2 (Some ''id="WD-1"\<newline>name="disk1"\<newline>temp="38"\<newline>type="Data"\<newline>'')))
     = [''unraid.disk.temperature:38|g|#disk_name:disk1,disk_id:wd-1,disk_type:data,device:,transport:'']\<close>
proof -
  let ?c = \<open>''id="WD-1"\<newline>name="disk1"\<newline>temp="38"\<newline>type="Data"\<newline>''\<close>
  have nh: "no_header (read_lines ?c)" by code_simp
  have v: "valid_v2 (fst (main_loop_v2 (read_lines ?c) (reset_v2, out_nil)))" by code_simp
  have m: "metric_v2 (fst (main_loop_v2 (read_lines ?c) (reset_v2, out_nil)))
     = ''unraid.disk.temperature:38|g|#disk_name:disk1,disk_id:wd-1,disk_type:data,device:,transport:''"
    by code_simp
  note t = headerless_file [OF nh]
  from t have a: "sent (snd (main_v1 (Some ?c))) = []" by blast
  from t have "sent (snd (main_v2 (Some ?c))) =
     (if valid_v2 (fst (main_loop_v2 (read_lines ?c) (reset_v2, out_nil)))
      then [metric_v2 (fst (main_loop_v2 (read_lines ?c) (reset_v2, out_nil)))]
      else [])" by blast
  then have b: "sent (snd (main_v2 (Some ?c)))
     = [''unraid.disk.temperature:38|g|#disk_name:disk1,disk_id:wd-1,disk_type:data,device:,transport:'']"
    by (simp only: v m if_True)
  show ?thesis by (intro conjI) (rule nh a b)+
qed

subsection \<open>C9: what is recorded from a key=value line\<close>

lemma echo_not_hyphen: "s \<noteq> [] \<Longrightarrow> hd s \<noteq> CHR ''-'' \<Longrightarrow> echo s = s"
  by (cases s) (simp_all add: echo_def is_echo_option_def)

lemma not_header_hd: "s \<noteq> [] \<Longrightarrow> hd s \<noteq> CHR ''['' \<Longrightarrow> \<not> is_header s"
  by (cases s) (auto simp add: is_header_def)

lemma is_space_not_hyphen: "is_space c \<Longrightarrow> c \<noteq> CHR ''-''"
  by (auto simp add: is_space_def)

lemma strip_leading_key:
  assumes "list_all is_space ws" "k \<noteq> []" "\<not> is_space (hd k)"
  shows "strip_leading (ws @ k @ rest) = k @ rest"
proof -
  have "dropWhile is_space (ws @ k @ rest) = dropWhile is_space (k @ rest)"
    using assms(1) by (simp add: list_all_iff dropWhile_append2)
  also have "\<dots> = k @ rest"
    using assms(2,3) by (cases k) simp_all
  finally show ?thesis by (simp add: strip_leading_def)
qed

lemma strip_trailing_key:
  "strip_trailing (k @ CHR ''='' # raw) = k @ CHR ''='' # strip_trailing raw"
proof (cases "list_all is_space (rev raw)")
  case True
  have ns: "\<not> is_space (CHR ''='')" by (simp add: is_space_def)
  from True ns have "dropWhile is_space (rev raw @ CHR ''='' # rev k) = CHR ''='' # rev k"
    by (simp add: list_all_iff dropWhile_append)
  moreover from True have "dropWhile is_space (rev raw) = []"
    by (simp add: list_all_iff)
  ultimately show ?thesis by (simp add: strip_trailing_def)
next
  case False
  then have "dropWhile is_space (rev raw @ CHR ''='' # rev k)
             = dropWhile is_space (rev raw) @ CHR ''='' # rev k"
    by (auto simp add: list_all_iff dropWhile_append)
  then show ?thesis by (simp add: strip_trailing_def)
qed

lemma clean_key_line:
  assumes "list_all is_space ws" "k \<noteq> []" "\<not> is_space (hd k)" "hd k \<noteq> CHR ''-''"
  shows "sed_trim (echo (ws @ k @ ''='' @ raw)) = k @ CHR ''='' # strip_trailing raw"
proof -
  have "hd (ws @ k @ ''='' @ raw) \<noteq> CHR ''-''"
    using assms by (cases ws) (auto simp add: is_space_not_hyphen)
  then have "echo (ws @ k @ ''='' @ raw) = ws @ k @ ''='' @ raw"
    using assms(2) by (simp add: echo_not_hyphen)
  then show ?thesis
    using strip_leading_key [OF assms(1-3), of "''='' @ raw"]
    by (simp add: sed_trim_def strip_trailing_key)
qed

lemma cut_f1_key: "CHR ''='' \<notin> set k \<Longrightarrow> cut_f1 (k @ CHR ''='' # r) = k"
  by (auto simp add: cut_f1_def takeWhile_tail takeWhile_eq_all_conv)

lemma cut_f2_to_end_key: "CHR ''='' \<notin> set k \<Longrightarrow> cut_f2_to_end (k @ CHR ''='' # r) = r"
proof -
  assume a: "CHR ''='' \<notin> set k"
  then have "dropWhile (\<lambda>c. c \<noteq> CHR ''='') k = []" by auto
  then have "dropWhile (\<lambda>c. c \<noteq> CHR ''='') (k @ CHR ''='' # r) = CHR ''='' # r"
    by (simp add: dropWhile_append3)
  then show ?thesis by (simp add: cut_f2_to_end_def)
qed

lemma key_line_v2:
  assumes "list_all is_space ws" "k \<noteq> []" "\<not> is_space (hd k)" "hd k \<noteq> CHR ''-''"
    "hd k \<noteq> CHR ''[''" "CHR ''='' \<notin> set k"
  shows "loop_body_v2 (ws @ k @ ''='' @ raw) (v, out)
         = (assign_v2 k (tr_d [CHR 0x22] (strip_trailing raw)) v, out)"
proof -
  let ?clean = "k @ CHR ''='' # strip_trailing raw"
  have c: "sed_trim (echo (ws @ k @ ''='' @ raw)) = ?clean"
    by (rule clean_key_line [OF assms(1-4)])
  have h: "\<not> is_header ?clean" using assms(2,5) by (simp add: not_header_hd)
  have e: "echo ?clean = ?clean" using assms(2,4) by (simp add: echo_not_hyphen)
  show ?thesis
    unfolding loop_body_v2_def
    by (simp only: prod.case c Let_def h if_False e cut_f1_key [OF assms(6)]
          cut_f2_to_end_key [OF assms(6)])
qed

lemma key_line_v1:
  assumes "list_all is_space ws" "k \<noteq> []" "\<not> is_space (hd k)" "hd k \<noteq> CHR ''-''"
    "hd k \<noteq> CHR ''[''" "CHR ''='' \<notin> set k"
  shows "loop_body_v1 (ws @ k @ ''='' @ raw) (u, out)
         = (let clean_line = k @ CHR ''='' # strip_trailing raw;
                val = tr_d [CHR 0x22] (takeWhile (\<lambda>c. c \<noteq> CHR ''='') (strip_trailing raw))
            in if take 3 clean_line = ''id='' then (u\<lparr>current_id := val\<rparr>, out)
               else if take 5 clean_line = ''temp='' then (u\<lparr>current_temp := val\<rparr>, out)
               else if take 5 clean_line = ''type='' then (u\<lparr>current_type := val\<rparr>, out)
               else (u, out))"
proof -
  let ?clean = "k @ CHR ''='' # strip_trailing raw"
  have c: "sed_trim (echo (ws @ k @ ''='' @ raw)) = ?clean"
    by (rule clean_key_line [OF assms(1-4)])
  have h: "\<not> is_header ?clean" using assms(2,5) by (simp add: not_header_hd)
  have e: "echo ?clean = ?clean" using assms(2,4) by (simp add: echo_not_hyphen)
  have f: "cut_f2 ?clean = takeWhile (\<lambda>c. c \<noteq> CHR ''='') (strip_trailing raw)"
    using cut_f2_to_end_key [OF assms(6), of "strip_trailing raw"] by (simp add: cut_f2_def)
  show ?thesis
    unfolding loop_body_v1_def
    by (simp only: prod.case c Let_def h if_False e f)
qed

text \<open>
  C9 as the specification has it fails in both scripts: a double quote inside the value
  is deleted with the enclosing ones.
\<close>

theorem interior_quotes_counterexample:
  \<open>current_name (fst (loop_body_v2 ''name="a"b"'' (reset_v2, out_nil))) = ''ab'' \<and>
   current_id (fst (loop_body_v1 ''id="a"b"'' (init_v1, out_nil))) = ''ab'' \<and>
   ''ab'' \<noteq> ''a"b''\<close>
  by code_simp

text \<open>
  C9, amended: from a line that is, between white space, a recognized key, an equals
  sign and a value, the variable of the key gets the value without its trailing white
  space and with every double quote deleted, the enclosing ones and those inside
  alike; the slot script keeps of the value only what stands before its first equals
  sign.
\<close>

theorem recorded_value_has_no_quotes:
  \<open>list_all is_space ws \<Longrightarrow>
   (k \<in> set [''name'', ''id'', ''temp'', ''type'', ''device'', ''transport'', ''rotational''] \<longrightarrow>
      field_v2 k (fst (loop_body_v2 (ws @ k @ ''='' @ raw) (v, out)))
        = tr_d ''"'' (strip_trailing raw)) \<and>
   (k \<in> set [''id'', ''temp'', ''type''] \<longrightarrow>
      field_v1 k (fst (loop_body_v1 (ws @ k @ ''='' @ raw) (u, out)))
        = tr_d ''"'' (takeWhile (\<lambda>c. c \<noteq> CHR ''='') (strip_trailing raw))) \<and>
   CHR 0x22 \<notin> set (tr_d ''"'' x)\<close>
proof -
  assume ws: "list_all is_space ws"
  have a: "field_v2 k (fst (loop_body_v2 (ws @ k @ ''='' @ raw) (v, out)))
        = tr_d [CHR 0x22] (strip_trailing raw)"
    if "k \<in> set [''name'', ''id'', ''temp'', ''type'', ''device'', ''transport'', ''rotational'']"
  proof -
    from that have p: "k \<noteq> []" "\<not> is_space (hd k)" "hd k \<noteq> CHR ''-''"
      "hd k \<noteq> CHR ''[''" "CHR ''='' \<notin> set k"
      by (auto simp add: is_space_def)
    from that show ?thesis
      unfolding key_line_v2 [OF ws p]
      by (auto simp add: field_v2_def assign_v2_def)
  qed
  have b: "field_v1 k (fst (loop_body_v1 (ws @ k @ ''='' @ raw) (u, out)))
        = tr_d [CHR 0x22] (takeWhile (\<lambda>c. c \<noteq> CHR ''='') (strip_trailing raw))"
    if "k \<in> set [''id'', ''temp'', ''type'']"
  proof -
    from that have p: "k \<noteq> []" "\<not> is_space (hd k)" "hd k \<noteq> CHR ''-''"
      "hd k \<noteq> CHR ''[''" "CHR ''='' \<notin> set k"
      by (auto simp add: is_space_def)
    from that show ?thesis
      unfolding key_line_v1 [OF ws p]
      by (auto simp add: field_v1_def Let_def)
  qed
  have c: "CHR 0x22 \<notin> set (tr_d [CHR 0x22] x)" by (simp add: tr_d_def)
  show ?thesis using a b c by simp
qed

theorem recorded_value_has_no_quotes_witness:
  \<open>list_all is_space ''  '' \<and>
   field_v2 ''name'' (fst (loop_body_v2 (''  '' @ ''name'' @ ''='' @ ''"a"b" '') (reset_v2, out_nil)))
     = ''ab'' \<and>
   field_v1 ''id'' (fst (loop_body_v1 (''  '' @ ''id'' @ ''='' @ ''"a"b" '') (init_v1, out_nil)))
     = ''ab''\<close>
proof -
  have w: \<open>list_all is_space ''  ''\<close> by code_simp
  have e: \<open>tr_d ''"'' (strip_trailing ''"a"b" '') = ''ab''\<close>
    \<open>tr_d ''"'' (takeWhile (\<lambda>c. c \<noteq> CHR ''='') (strip_trailing ''"a"b" '')) = ''ab''\<close>
    by code_simp+
  note t = recorded_value_has_no_quotes [OF w, where k = "''name''" and raw = \<open>''"a"b" ''\<close>
      and v = reset_v2 and out = out_nil]
  note t' = recorded_value_has_no_quotes [OF w, where k = "''id''" and raw = \<open>''"a"b" ''\<close>
      and u = init_v1 and out = out_nil]
  from t have a: \<open>field_v2 ''name'' (fst (loop_body_v2 (''  '' @ ''name'' @ ''='' @ ''"a"b" '') (reset_v2, out_nil)))
     = tr_d ''"'' (strip_trailing ''"a"b" '')\<close> by simp
  from t' have b: \<open>field_v1 ''id'' (fst (loop_body_v1 (''  '' @ ''id'' @ ''='' @ ''"a"b" '') (init_v1, out_nil)))
     = tr_d ''"'' (takeWhile (\<lambda>c. c \<noteq> CHR ''='') (strip_trailing ''"a"b" ''))\<close> by simp
  show ?thesis
    by (intro conjI) (rule w a [unfolded e] b [unfolded e])+
qed

subsection \<open>C10: the disk id tag\<close>

lemma to_lower_other: "\<not> is_upper c \<Longrightarrow> to_lower c = c"
  by (simp add: to_lower_def)

lemma to_lower_hyphen: "to_lower (CHR ''-'') = CHR ''-''"
  by (simp add: to_lower_def is_upper_def)

text \<open>
  For an id that \<^verbatim>\<open>echo\<close> prints, the tag value is the id with A-Z made a-z and every
  other character, the hyphen among them, as it was.
\<close>

lemma sanitized_id_lowercases:
  "\<not> is_echo_option (current_id v) \<Longrightarrow> sanitized_id v = map to_lower (current_id v)"
  by (simp add: sanitized_id_def echo_def tr_lower_def)

lemma sanitized_id_example:
  \<open>sanitized_id (section_vars_v2 (''["disk1"]'', [''name="disk1"'', ''id="WDC_WD40-68N_WD-WCC7K"'']))
     = ''wdc_wd40-68n_wd-wcc7k''\<close>
  by code_simp

text \<open>
  C10 fails for an id that \<^verbatim>\<open>echo\<close> takes as an option, such as \<^verbatim>\<open>-n\<close>: the script
  pipes \<^verbatim>\<open>echo "$current_id"\<close> into \<^verbatim>\<open>tr\<close>, nothing is printed, and the metric goes
  out with an empty \<^verbatim>\<open>disk_id\<close> tag where the claim has \<^verbatim>\<open>disk_id:-n\<close>.
\<close>

theorem echo_option_id_is_lost:
  \<open>current_id (section_vars_v2 (''["disk1"]'', [''name="disk1"'', ''id="-n"'', ''temp="38"''])) = ''-n'' \<and>
   map to_lower ''-n'' = ''-n'' \<and>
   sanitized_id (section_vars_v2 (''["disk1"]'', [''name="disk1"'', ''id="-n"'', ''temp="38"''])) = [] \<and>
   sent (snd (main_v2 (Some ''["disk1"]\<newline>name="disk1"\<newline>id="-n"\<newline>temp="38"\<newline>'')))
     = [''unraid.disk.temperature:38|g|#disk_name:disk1,disk_id:,disk_type:,device:,transport:'']\<close>
  by code_simp

end
